theory Spec2Isabelle
  imports Complex_Main
begin

section \<open>Values, exceptions and entities\<close>

text \<open>
  The catalog of \<^verbatim>\<open>ga4gh/datamodel/datasets.py\<close> is embedded with explicit state passing:
  a dataset object is a record of its attributes, a Python dictionary is a map, and a method
  that may raise returns a sum whose left side is the exception.
\<close>

datatype pyval =
    PyNone
  | PyBool bool
  | PyInt int
  | PyFloat real
  | PyStr string
  | PyList "pyval list"
  | PyDict "(string \<times> pyval) list"

text \<open>
  The exception classes the module names. \<open>ReadGroupSetNotFoundException\<close> is named by the
  docstring of \<^verbatim>\<open>getReadGroupSet\<close> only; \<open>KeyError\<close>, \<open>IndexError\<close>, \<open>TypeError\<close> and
  \<open>OSError\<close> are Python's own; \<open>OtherException\<close> stands for whatever else a collaborator raises.
\<close>

datatype exc =
    VariantSetNotFoundException string
  | ReadGroupSetNotFoundException string
  | ReadGroupNotFoundException string
  | ReadGroupSetNameNotFoundException string
  | RnaQuantificationNotFoundException string
  | SequenceAnnotationNotFoundException string
  | MissingDatasetMetadataException string string
  | KeyError string
  | IndexError
  | TypeError
  | OSError string
  | OtherException string

text \<open>
  A sub-resource (variant set, read-group set, RNA quantification, sequence annotation) is
  built by a collaborator; the catalog asks it for \<^verbatim>\<open>getId()\<close> and \<^verbatim>\<open>getLocalId()\<close> only.
  The remaining content of the object is the field \<open>content\<close>.
\<close>

record entity =
  getId :: string
  getLocalId :: string
  content :: string

subsection \<open>Python's containers\<close>

text \<open>\<^verbatim>\<open>d[k]\<close> on a dictionary raises \<^verbatim>\<open>KeyError\<close> when the key is missing.\<close>

definition dict_get :: "(string \<rightharpoonup> 'v) \<Rightarrow> string \<Rightarrow> exc + 'v" where
  "dict_get m k = (case m k of None \<Rightarrow> Inl (KeyError k) | Some v \<Rightarrow> Inr v)"

text \<open>
  \<^verbatim>\<open>xs[i]\<close> on a list: a negative index counts from the end, and an index outside
  \<open>-len \<le> i < len\<close> raises \<^verbatim>\<open>IndexError\<close>.
\<close>

definition list_get :: "'a list \<Rightarrow> int \<Rightarrow> exc + 'a" where
  "list_get xs i =
     (let n = int (length xs); j = (if i < 0 then i + n else i)
      in if 0 \<le> j \<and> j < n then Inr (xs ! nat j) else Inl IndexError)"

text \<open>The comprehension \<^verbatim>\<open>[m[k] for k in ids]\<close>: the first missing key raises.\<close>

fun lookup_all :: "(string \<rightharpoonup> 'v) \<Rightarrow> string list \<Rightarrow> exc + 'v list" where
  "lookup_all m [] = Inr []"
| "lookup_all m (k # ks) =
     (case dict_get m k of
        Inl e \<Rightarrow> Inl e
      | Inr v \<Rightarrow> (case lookup_all m ks of Inl e \<Rightarrow> Inl e | Inr vs \<Rightarrow> Inr (v # vs)))"

section \<open>AbstractDataset\<close>

record dataset =
  localId :: string
  variantSetIds :: "string list"
  variantSetIdMap :: "string \<rightharpoonup> entity"
  readGroupSetIds :: "string list"
  readGroupSetIdMap :: "string \<rightharpoonup> entity"
  readGroupSetNameMap :: "string \<rightharpoonup> entity"
  description :: pyval
  rnaQuantificationIds :: "string list"
  rnaQuantificationIdMap :: "string \<rightharpoonup> entity"
  sequenceAnnotationIds :: "string list"
  sequenceAnnotationIdMap :: "string \<rightharpoonup> entity"

definition AbstractDataset_init :: "string \<Rightarrow> dataset" where
  "AbstractDataset_init l =
     \<lparr> localId = l,
       variantSetIds = [], variantSetIdMap = Map.empty,
       readGroupSetIds = [], readGroupSetIdMap = Map.empty,
       readGroupSetNameMap = Map.empty,
       description = PyNone,
       rnaQuantificationIds = [], rnaQuantificationIdMap = Map.empty,
       sequenceAnnotationIds = [], sequenceAnnotationIdMap = Map.empty \<rparr>"

definition addVariantSet :: "dataset \<Rightarrow> entity \<Rightarrow> dataset" where
  "addVariantSet d variantSet =
     (let ident = getId variantSet
      in d\<lparr> variantSetIdMap := (variantSetIdMap d)(ident \<mapsto> variantSet),
             variantSetIds := variantSetIds d @ [ident] \<rparr>)"

definition addReadGroupSet :: "dataset \<Rightarrow> entity \<Rightarrow> dataset" where
  "addReadGroupSet d readGroupSet =
     (let ident = getId readGroupSet
      in d\<lparr> readGroupSetIdMap := (readGroupSetIdMap d)(ident \<mapsto> readGroupSet),
             readGroupSetNameMap :=
               (readGroupSetNameMap d)(getLocalId readGroupSet \<mapsto> readGroupSet),
             readGroupSetIds := readGroupSetIds d @ [ident] \<rparr>)"

definition addRnaQuantification :: "dataset \<Rightarrow> entity \<Rightarrow> dataset" where
  "addRnaQuantification d rnaQuant =
     (let ident = getId rnaQuant
      in d\<lparr> rnaQuantificationIdMap := (rnaQuantificationIdMap d)(ident \<mapsto> rnaQuant),
             rnaQuantificationIds := rnaQuantificationIds d @ [ident] \<rparr>)"

definition addSequenceAnnotation :: "dataset \<Rightarrow> entity \<Rightarrow> dataset" where
  "addSequenceAnnotation d annotation =
     (let ident = getId annotation
      in d\<lparr> sequenceAnnotationIdMap := (sequenceAnnotationIdMap d)(ident \<mapsto> annotation),
             sequenceAnnotationIds := sequenceAnnotationIds d @ [ident] \<rparr>)"

definition getVariantSets :: "dataset \<Rightarrow> exc + entity list" where
  "getVariantSets d = lookup_all (variantSetIdMap d) (variantSetIds d)"

definition getNumVariantSets :: "dataset \<Rightarrow> nat" where
  "getNumVariantSets d = length (variantSetIds d)"

definition getVariantSet :: "dataset \<Rightarrow> string \<Rightarrow> exc + entity" where
  "getVariantSet d ident =
     (if variantSetIdMap d ident = None then Inl (VariantSetNotFoundException ident)
      else dict_get (variantSetIdMap d) ident)"

definition getVariantSetByIndex :: "dataset \<Rightarrow> int \<Rightarrow> exc + entity" where
  "getVariantSetByIndex d index =
     (case list_get (variantSetIds d) index of
        Inl e \<Rightarrow> Inl e
      | Inr ident \<Rightarrow> dict_get (variantSetIdMap d) ident)"

definition getNumReadGroupSets :: "dataset \<Rightarrow> nat" where
  "getNumReadGroupSets d = length (readGroupSetIds d)"

definition getReadGroupSets :: "dataset \<Rightarrow> exc + entity list" where
  "getReadGroupSets d = lookup_all (readGroupSetIdMap d) (readGroupSetIds d)"

definition getReadGroupSetByName :: "dataset \<Rightarrow> string \<Rightarrow> exc + entity" where
  "getReadGroupSetByName d name =
     (if readGroupSetNameMap d name = None then Inl (ReadGroupSetNameNotFoundException name)
      else dict_get (readGroupSetNameMap d) name)"

definition getReadGroupSetByIndex :: "dataset \<Rightarrow> int \<Rightarrow> exc + entity" where
  "getReadGroupSetByIndex d index =
     (case list_get (readGroupSetIds d) index of
        Inl e \<Rightarrow> Inl e
      | Inr ident \<Rightarrow> dict_get (readGroupSetIdMap d) ident)"

definition getReadGroupSet :: "dataset \<Rightarrow> string \<Rightarrow> exc + entity" where
  "getReadGroupSet d ident =
     (if readGroupSetIdMap d ident = None then Inl (ReadGroupNotFoundException ident)
      else dict_get (readGroupSetIdMap d) ident)"

definition getDescription :: "dataset \<Rightarrow> pyval" where
  "getDescription d = description d"

definition getRnaQuantificationIds :: "dataset \<Rightarrow> string list" where
  "getRnaQuantificationIds d = rnaQuantificationIds d"

definition getRnaQuantifications :: "dataset \<Rightarrow> exc + entity list" where
  "getRnaQuantifications d = lookup_all (rnaQuantificationIdMap d) (rnaQuantificationIds d)"

definition getRnaQuantification :: "dataset \<Rightarrow> string \<Rightarrow> exc + entity" where
  "getRnaQuantification d ident =
     (if rnaQuantificationIdMap d ident = None then Inl (RnaQuantificationNotFoundException ident)
      else dict_get (rnaQuantificationIdMap d) ident)"

text \<open>\<^verbatim>\<open>getSequenceAnnotations\<close> returns the list of ids itself, not the entities.\<close>

definition getSequenceAnnotations :: "dataset \<Rightarrow> string list" where
  "getSequenceAnnotations d = sequenceAnnotationIds d"

definition getSequenceAnnotation :: "dataset \<Rightarrow> string \<Rightarrow> exc + entity" where
  "getSequenceAnnotation d ident =
     (if sequenceAnnotationIdMap d ident = None
      then Inl (SequenceAnnotationNotFoundException ident)
      else dict_get (sequenceAnnotationIdMap d) ident)"

subsection \<open>Sequences of add calls\<close>

text \<open>
  A dataset is populated by calls of the four add methods, in any interleaving, on the
  state the constructor leaves.
\<close>

datatype add_call =
    AddVariantSet entity
  | AddReadGroupSet entity
  | AddRnaQuantification entity
  | AddSequenceAnnotation entity

fun do_add :: "dataset \<Rightarrow> add_call \<Rightarrow> dataset" where
  "do_add d (AddVariantSet e) = addVariantSet d e"
| "do_add d (AddReadGroupSet e) = addReadGroupSet d e"
| "do_add d (AddRnaQuantification e) = addRnaQuantification d e"
| "do_add d (AddSequenceAnnotation e) = addSequenceAnnotation d e"

definition populate :: "dataset \<Rightarrow> add_call list \<Rightarrow> dataset" where
  "populate d cs = foldl do_add d cs"

fun variantSetsOf :: "add_call list \<Rightarrow> entity list" where
  "variantSetsOf [] = []"
| "variantSetsOf (AddVariantSet e # cs) = e # variantSetsOf cs"
| "variantSetsOf (_ # cs) = variantSetsOf cs"

fun readGroupSetsOf :: "add_call list \<Rightarrow> entity list" where
  "readGroupSetsOf [] = []"
| "readGroupSetsOf (AddReadGroupSet e # cs) = e # readGroupSetsOf cs"
| "readGroupSetsOf (_ # cs) = readGroupSetsOf cs"

fun rnaQuantificationsOf :: "add_call list \<Rightarrow> entity list" where
  "rnaQuantificationsOf [] = []"
| "rnaQuantificationsOf (AddRnaQuantification e # cs) = e # rnaQuantificationsOf cs"
| "rnaQuantificationsOf (_ # cs) = rnaQuantificationsOf cs"

fun sequenceAnnotationsOf :: "add_call list \<Rightarrow> entity list" where
  "sequenceAnnotationsOf [] = []"
| "sequenceAnnotationsOf (AddSequenceAnnotation e # cs) = e # sequenceAnnotationsOf cs"
| "sequenceAnnotationsOf (_ # cs) = sequenceAnnotationsOf cs"

text \<open>The dictionary a sequence of insertions builds: a later entry replaces an earlier one.\<close>

definition dict_of :: "(entity \<Rightarrow> string) \<Rightarrow> entity list \<Rightarrow> (string \<rightharpoonup> entity)" where
  "dict_of key es = map_of (rev (map (\<lambda>e. (key e, e)) es))"

section \<open>Library functions the loaders call\<close>

text \<open>
  The loaders call Python's \<^verbatim>\<open>os.path\<close>, \<^verbatim>\<open>fnmatch\<close> and \<^verbatim>\<open>str.format\<close>. They are
  modelled as the POSIX variants of the standard library define them.
\<close>

text \<open>\<^verbatim>\<open>posixpath.join(a, b)\<close> for two components.\<close>

definition path_join :: "string \<Rightarrow> string \<Rightarrow> string" where
  "path_join a b =
     (if b \<noteq> [] \<and> hd b = CHR ''/'' then b
      else if a = [] \<or> last a = CHR ''/'' then a @ b
      else a @ ''/'' @ b)"

text \<open>
  \<^verbatim>\<open>fnmatch.fnmatchcase(name, pat)\<close> for patterns built from literal characters, \<open>*\<close> and
  \<open>?\<close> (the pattern of the loader has no bracket expression). On POSIX
  \<^verbatim>\<open>os.path.normcase\<close> is the identity, so \<^verbatim>\<open>fnmatch.fnmatch\<close> is \<^verbatim>\<open>fnmatchcase\<close>.
\<close>

fun fnmatchcase :: "string \<Rightarrow> string \<Rightarrow> bool" where
  "fnmatchcase [] [] = True"
| "fnmatchcase (c # cs) [] = False"
| "fnmatchcase [] (p # ps) = (p = CHR ''*'' \<and> fnmatchcase [] ps)"
| "fnmatchcase (c # cs) (p # ps) =
     (if p = CHR ''*'' then fnmatchcase (c # cs) ps \<or> fnmatchcase cs (p # ps)
      else if p = CHR ''?'' then fnmatchcase cs ps
      else p = c \<and> fnmatchcase cs ps)"

definition normcase :: "string \<Rightarrow> string" where
  "normcase s = s"

definition fnmatch :: "string \<Rightarrow> string \<Rightarrow> bool" where
  "fnmatch name pat = fnmatchcase (normcase name) (normcase pat)"

text \<open>\<^verbatim>\<open>p.rfind(c)\<close> for a single character: the highest index of \<open>c\<close>, or \<open>-1\<close>.\<close>

definition rfind :: "string \<Rightarrow> char \<Rightarrow> int" where
  "rfind p c =
     (if c \<in> set p
      then int (length p) - 1 - int (length (takeWhile (\<lambda>x. x \<noteq> c) (rev p)))
      else - 1)"

text \<open>
  \<^verbatim>\<open>posixpath.splitext(p)\<close>: the extension starts at the last dot of the last path
  component, unless only dots precede that dot in the component; then there is no extension.
\<close>

definition splitext :: "string \<Rightarrow> string \<times> string" where
  "splitext p =
     (let sepIndex = rfind p CHR ''/''; dotIndex = rfind p CHR ''.''
      in if dotIndex > sepIndex \<and>
            list_ex (\<lambda>c. c \<noteq> CHR ''.'')
              (take (nat (dotIndex - (sepIndex + 1))) (drop (nat (sepIndex + 1)) p))
         then (take (nat dotIndex) p, drop (nat dotIndex) p)
         else (p, []))"

text \<open>\<^verbatim>\<open>"{}".format(i)\<close> for an integer: its decimal digits.\<close>

fun digits_of :: "nat \<Rightarrow> string" where
  "digits_of n =
     (if n < 10 then [''0123456789'' ! n]
      else digits_of (n div 10) @ [''0123456789'' ! (n mod 10)])"

declare digits_of.simps [simp del]

definition format_int :: "int \<Rightarrow> string" where
  "format_int i = (if i < 0 then ''-'' @ digits_of (nat (- i)) else digits_of (nat i))"


text \<open>
  \<^verbatim>\<open>str(err)\<close> of a \<^verbatim>\<open>KeyError\<close> whose key is a plain word: the key in single quotes, as
  Python 3 prints it (Python 2 puts \<open>u\<close> before the quotes of a unicode key).
\<close>

definition str_KeyError :: "string \<Rightarrow> string" where
  "str_KeyError k = [CHR 0x27] @ k @ [CHR 0x27]"

text \<open>\<^verbatim>\<open>v[key]\<close> for a string key, on a value that \<^verbatim>\<open>json.load\<close> may return.\<close>

fun getitem :: "pyval \<Rightarrow> string \<Rightarrow> exc + pyval" where
  "getitem (PyDict kvs) key =
     (case map_of kvs key of None \<Rightarrow> Inl (KeyError key) | Some v \<Rightarrow> Inr v)"
| "getitem _ key = Inl TypeError"

text \<open>A \<^verbatim>\<open>for\<close> loop whose body may raise: the first exception ends the loop.\<close>

fun for_each :: "('s \<Rightarrow> 'a \<Rightarrow> exc + 's) \<Rightarrow> 's \<Rightarrow> 'a list \<Rightarrow> exc + 's" where
  "for_each body s [] = Inr s"
| "for_each body s (x # xs) =
     (case body s x of Inl e \<Rightarrow> Inl e | Inr s' \<Rightarrow> for_each body s' xs)"

section \<open>Collaborators and the file system\<close>

text \<open>
  The constructors of the sub-resources live in other modules. They are parameters of the
  model; each may raise. A constructor receives the dataset object as its parent: the model
  passes the dataset's local id, which identifies it. \<open>backend\<close> and \<open>referenceSet\<close> are
  opaque objects handed through.
\<close>

type_synonym handle = string

record collaborators =
  HtslibVariantSet :: "string \<Rightarrow> string \<Rightarrow> string \<Rightarrow> handle \<Rightarrow> exc + entity"
  HtslibReadGroupSet :: "string \<Rightarrow> string \<Rightarrow> string \<Rightarrow> handle \<Rightarrow> exc + entity"
  RNASeqResult :: "string \<Rightarrow> string \<Rightarrow> string \<Rightarrow> exc + entity"
  SequenceAnnotation :: "string \<Rightarrow> string \<Rightarrow> string \<Rightarrow> exc + entity"
  SimulatedVariantSet :: "string \<Rightarrow> string \<Rightarrow> int \<Rightarrow> int \<Rightarrow> real \<Rightarrow> exc + entity"
  SimulatedReadGroupSet ::
    "string \<Rightarrow> string \<Rightarrow> handle \<Rightarrow> int \<Rightarrow> int \<Rightarrow> int \<Rightarrow> exc + entity"
  SimulatedRNASeqResult :: "string \<Rightarrow> string \<Rightarrow> exc + entity"

text \<open>
  The file system as the loader sees it: \<^verbatim>\<open>os.path.isfile\<close>, \<^verbatim>\<open>os.path.isdir\<close>,
  \<^verbatim>\<open>os.listdir\<close> (which raises on a missing directory) and \<^verbatim>\<open>json.load(open(path))\<close>.
\<close>

record filesystem =
  isfile :: "string \<Rightarrow> bool"
  isdir :: "string \<Rightarrow> bool"
  listdir :: "string \<Rightarrow> exc + string list"
  json_load :: "string \<Rightarrow> exc + pyval"

section \<open>SimulatedDataset\<close>






section \<open>FileSystemDataset\<close>

text \<open>
  \<^verbatim>\<open>_setMetadata\<close>. The attribute \<^verbatim>\<open>_dataDir\<close> is written once by the constructor and read
  here only; it is an argument of the model.
\<close>

definition setMetadata :: "filesystem \<Rightarrow> string \<Rightarrow> dataset \<Rightarrow> exc + dataset" where
  "setMetadata fs dataDir d =
     (let metadataFileName = dataDir @ ''.json''
      in if isfile fs metadataFileName
         then (case json_load fs metadataFileName of
                 Inl e \<Rightarrow> Inl e
               | Inr metadata \<Rightarrow>
                   (case getitem metadata ''description'' of
                      Inl err \<Rightarrow>
                        (case err of
                           KeyError k \<Rightarrow>
                             Inl (MissingDatasetMetadataException metadataFileName
                                    (str_KeyError k))
                         | _ \<Rightarrow> Inl err)
                    | Inr v \<Rightarrow> Inr (d\<lparr> description := v \<rparr>)))
         else Inr d)"

definition variantSetBody ::
  "filesystem \<Rightarrow> collaborators \<Rightarrow> handle \<Rightarrow> string \<Rightarrow> dataset \<Rightarrow> string \<Rightarrow> exc + dataset"
  where
  "variantSetBody fs co backend variantSetDir d l =
     (let relativePath = path_join variantSetDir l
      in if isdir fs relativePath
         then (case HtslibVariantSet co (localId d) l relativePath backend of
                 Inl e \<Rightarrow> Inl e
               | Inr variantSet \<Rightarrow> Inr (addVariantSet d variantSet))
         else Inr d)"

definition readGroupSetBody ::
  "collaborators \<Rightarrow> handle \<Rightarrow> string \<Rightarrow> dataset \<Rightarrow> string \<Rightarrow> exc + dataset" where
  "readGroupSetBody co backend readGroupSetDir d filename =
     (if fnmatch filename ''*.bam''
      then (let l = fst (splitext filename);
                bamPath = path_join readGroupSetDir filename
            in case HtslibReadGroupSet co (localId d) l bamPath backend of
                 Inl e \<Rightarrow> Inl e
               | Inr readGroupSet \<Rightarrow> Inr (addReadGroupSet d readGroupSet))
      else Inr d)"

definition rnaQuantBody ::
  "filesystem \<Rightarrow> collaborators \<Rightarrow> string \<Rightarrow> dataset \<Rightarrow> string \<Rightarrow> exc + dataset" where
  "rnaQuantBody fs co rnaQuantDir d l =
     (let relativePath = path_join rnaQuantDir l
      in if isdir fs relativePath
         then (case RNASeqResult co (localId d) l relativePath of
                 Inl e \<Rightarrow> Inl e
               | Inr rnaQuant \<Rightarrow> Inr (addRnaQuantification d rnaQuant))
         else Inr d)"

definition seqAnnotationBody ::
  "collaborators \<Rightarrow> string \<Rightarrow> dataset \<Rightarrow> string \<Rightarrow> exc + dataset" where
  "seqAnnotationBody co seqAnnotationDir d gffFile =
     (let relativePath = path_join seqAnnotationDir gffFile
      in case SequenceAnnotation co (localId d) gffFile relativePath of
           Inl e \<Rightarrow> Inl e
         | Inr annotation \<Rightarrow> Inr (addSequenceAnnotation d annotation))"

text \<open>One scan step: list the directory, then run the loop body on each entry.\<close>

definition scan ::
  "filesystem \<Rightarrow> string \<Rightarrow> (dataset \<Rightarrow> string \<Rightarrow> exc + dataset) \<Rightarrow> dataset \<Rightarrow> exc + dataset"
  where
  "scan fs dir body d =
     (case listdir fs dir of Inl e \<Rightarrow> Inl e | Inr entries \<Rightarrow> for_each body d entries)"

definition scanVariants ::
  "filesystem \<Rightarrow> collaborators \<Rightarrow> handle \<Rightarrow> string \<Rightarrow> dataset \<Rightarrow> exc + dataset" where
  "scanVariants fs co backend dataDir d =
     (let variantSetDir = path_join dataDir ''variants''
      in scan fs variantSetDir (variantSetBody fs co backend variantSetDir) d)"

definition scanReads ::
  "filesystem \<Rightarrow> collaborators \<Rightarrow> handle \<Rightarrow> string \<Rightarrow> dataset \<Rightarrow> exc + dataset" where
  "scanReads fs co backend dataDir d =
     (let readGroupSetDir = path_join dataDir ''reads''
      in scan fs readGroupSetDir (readGroupSetBody co backend readGroupSetDir) d)"

definition scanRnaQuant ::
  "filesystem \<Rightarrow> collaborators \<Rightarrow> string \<Rightarrow> dataset \<Rightarrow> exc + dataset" where
  "scanRnaQuant fs co dataDir d =
     (let rnaQuantDir = path_join dataDir ''rnaQuant''
      in scan fs rnaQuantDir (rnaQuantBody fs co rnaQuantDir) d)"

definition scanSeqAnnotations ::
  "filesystem \<Rightarrow> collaborators \<Rightarrow> string \<Rightarrow> dataset \<Rightarrow> exc + dataset" where
  "scanSeqAnnotations fs co dataDir d =
     (let seqAnnotationDir = path_join dataDir ''sequenceAnnotations''
      in scan fs seqAnnotationDir (seqAnnotationBody co seqAnnotationDir) d)"

text \<open>The four scans of the constructor, in its order.\<close>

definition scanAll ::
  "filesystem \<Rightarrow> collaborators \<Rightarrow> handle \<Rightarrow> string \<Rightarrow> dataset \<Rightarrow> exc + dataset" where
  "scanAll fs co backend dataDir d1 =
     (case scanVariants fs co backend dataDir d1 of
        Inl e \<Rightarrow> Inl e
      | Inr d2 \<Rightarrow>
     (case scanReads fs co backend dataDir d2 of
        Inl e \<Rightarrow> Inl e
      | Inr d3 \<Rightarrow>
     (case scanRnaQuant fs co dataDir d3 of
        Inl e \<Rightarrow> Inl e
      | Inr d4 \<Rightarrow> scanSeqAnnotations fs co dataDir d4)))"

definition FileSystemDataset_init ::
  "filesystem \<Rightarrow> collaborators \<Rightarrow> string \<Rightarrow> string \<Rightarrow> handle \<Rightarrow> exc + dataset" where
  "FileSystemDataset_init fs co l dataDir backend =
     (case setMetadata fs dataDir (AbstractDataset_init l) of
        Inl e \<Rightarrow> Inl e
      | Inr d1 \<Rightarrow> scanAll fs co backend dataDir d1)"

section \<open>Notions used to state the properties\<close>

text \<open>The entity most recently added under the id of \<open>e\<close>, among the entities \<open>es\<close>.\<close>

definition latest :: "entity list \<Rightarrow> entity \<Rightarrow> entity" where
  "latest es e = last (filter (\<lambda>x. getId x = getId e) es)"

text \<open>The results of a sequence of constructor calls: the first exception, or all entities.\<close>

fun collect :: "(exc + 'a) list \<Rightarrow> exc + 'a list" where
  "collect [] = Inr []"
| "collect (r # rs) =
     (case r of
        Inl e \<Rightarrow> Inl e
      | Inr v \<Rightarrow> (case collect rs of Inl e \<Rightarrow> Inl e | Inr vs \<Rightarrow> Inr (v # vs)))"

text \<open>
  A finite file system, for concrete runs: the regular files, the directories, the listing
  of each directory that can be listed, and the parsed content of each JSON file.
\<close>

definition mk_fs ::
  "string list \<Rightarrow> string list \<Rightarrow> (string \<times> string list) list \<Rightarrow> (string \<times> pyval) list
   \<Rightarrow> filesystem" where
  "mk_fs files dirs listings jsons =
     \<lparr> isfile = (\<lambda>p. p \<in> set files),
       isdir = (\<lambda>p. p \<in> set dirs),
       listdir = (\<lambda>p. case map_of listings p of
                         None \<Rightarrow> Inl (OSError p)
                       | Some entries \<Rightarrow> Inr entries),
       json_load = (\<lambda>p. case map_of jsons p of
                           None \<Rightarrow> Inl (OSError p)
                         | Some v \<Rightarrow> Inr v) \<rparr>"

text \<open>
  Collaborators for concrete runs: every constructor builds an entity whose id is the
  parent's id, a colon and the local id; the file-based ones fail on the local id \<open>bad\<close>.
\<close>

definition mk_entity :: "string \<Rightarrow> string \<Rightarrow> string \<Rightarrow> entity" where
  "mk_entity parent l c = \<lparr> getId = parent @ '':'' @ l, getLocalId = l, content = c \<rparr>"

definition from_file :: "string \<Rightarrow> string \<Rightarrow> string \<Rightarrow> exc + entity" where
  "from_file parent l path =
     (if l = ''bad'' then Inl (OtherException path) else Inr (mk_entity parent l path))"

definition example_co :: collaborators where
  "example_co =
     \<lparr> HtslibVariantSet = (\<lambda>parent l path backend. from_file parent l path),
       HtslibReadGroupSet = (\<lambda>parent l path backend. from_file parent l path),
       RNASeqResult = from_file,
       SequenceAnnotation = from_file,
       SimulatedVariantSet = (\<lambda>parent l seed n v. Inr (mk_entity parent l (format_int seed))),
       SimulatedReadGroupSet =
         (\<lambda>parent l r seed n m. Inr (mk_entity parent l (format_int seed))),
       SimulatedRNASeqResult = (\<lambda>parent l. Inr (mk_entity parent l [])) \<rparr>"

text \<open>
  A data directory \<open>data\<close> with one variant-set directory, one alignment file and a text
  file under \<open>reads\<close>, and empty \<open>rnaQuant\<close> and \<open>sequenceAnnotations\<close>; \<open>jsons\<close> are the
  JSON files beside it.
\<close>

definition example_fs :: "(string \<times> pyval) list \<Rightarrow> filesystem" where
  "example_fs jsons =
     mk_fs (''data/reads/rg1.bam'' # ''data/reads/notes.txt'' # map fst jsons)
       [''data'', ''data/variants'', ''data/variants/vs1'', ''data/reads'', ''data/rnaQuant'',
        ''data/sequenceAnnotations'']
       [(''data'', [''variants'', ''reads'', ''rnaQuant'', ''sequenceAnnotations'']),
        (''data/variants'', [''vs1'']),
        (''data/reads'', [''rg1.bam'', ''notes.txt'']),
        (''data/rnaQuant'', []),
        (''data/sequenceAnnotations'', [])]
       jsons"

section \<open>Populating a dataset\<close>

lemma populate_Nil: "populate d [] = d"
  by (simp add: populate_def)

lemma populate_Cons: "populate d (c # cs) = populate (do_add d c) cs"
  by (simp add: populate_def)


lemma dict_of_Nil: "dict_of key [] = Map.empty"
  by (simp add: dict_of_def)

lemma dict_of_Cons: "dict_of key (e # es) = [key e \<mapsto> e] ++ dict_of key es"
  by (simp add: dict_of_def)

lemma dict_of_push:
  "m ++ dict_of key (e # es) = (m(key e \<mapsto> e)) ++ dict_of key es"
  by (rule ext) (simp add: dict_of_Cons map_add_def split: option.splits)

lemma dict_of_lookup:
  "dict_of key es k =
     (case filter (\<lambda>x. key x = k) es of [] \<Rightarrow> None | x # xs \<Rightarrow> Some (last (x # xs)))"
proof (induction es)
  case Nil
  show ?case by (simp add: dict_of_Nil)
next
  case (Cons a es)
  show ?case
  proof (cases "filter (\<lambda>x. key x = k) es")
    case Nil
    with Cons.IH have "dict_of key es k = None" by simp
    with Nil show ?thesis by (cases "key a = k") (simp_all add: dict_of_Cons map_add_def)
  next
    case (Cons y ys)
    with Cons.IH have "dict_of key es k = Some (last (y # ys))" by simp
    with Cons show ?thesis by (cases "key a = k") (simp_all add: dict_of_Cons map_add_def)
  qed
qed

lemma filter_key_distinct:
  "distinct (map key es) \<Longrightarrow> e \<in> set es \<Longrightarrow> filter (\<lambda>x. key x = key e) es = [e]"
proof (induction es)
  case Nil
  then show ?case by simp
next
  case (Cons a es)
  show ?case
  proof (cases "a = e")
    case True
    with Cons.prems have "\<forall>x\<in>set es. key x \<noteq> key e" by (auto simp: image_iff)
    then have "filter (\<lambda>x. key x = key e) es = []" by (simp add: filter_empty_conv)
    with True show ?thesis by simp
  next
    case False
    with Cons.prems have "e \<in> set es" and "key a \<noteq> key e" and "distinct (map key es)"
      by (auto simp: image_iff)
    with Cons.IH show ?thesis by simp
  qed
qed

lemma dict_of_member:
  "e \<in> set es \<Longrightarrow> dict_of key es (key e) = Some (last (filter (\<lambda>x. key x = key e) es))"
proof -
  assume "e \<in> set es"
  then have "filter (\<lambda>x. key x = key e) es \<noteq> []" by (auto simp: filter_empty_conv)
  then show ?thesis by (simp add: dict_of_lookup split: list.splits)
qed

lemma dict_of_Some:
  "dict_of key es k = Some e \<Longrightarrow> e \<in> set es \<and> key e = k"
proof -
  assume a: "dict_of key es k = Some e"
  then have ne: "filter (\<lambda>x. key x = k) es \<noteq> []" and "e = last (filter (\<lambda>x. key x = k) es)"
    by (auto simp: dict_of_lookup split: list.splits)
  then have "e \<in> set (filter (\<lambda>x. key x = k) es)" using last_in_set by blast
  then show ?thesis by simp
qed

lemma lookup_all_map:
  "\<forall>e\<in>set es. m (key e) = Some (f e) \<Longrightarrow> lookup_all m (map key es) = Inr (map f es)"
  by (induction es) (simp_all add: dict_get_def)

lemma lookup_all_dict_of:
  "lookup_all (dict_of getId es) (map getId es) = Inr (map (latest es) es)"
  by (rule lookup_all_map) (simp add: dict_of_member latest_def)

lemma latest_distinct:
  "distinct (map getId es) \<Longrightarrow> e \<in> set es \<Longrightarrow> latest es e = e"
  by (simp add: latest_def filter_key_distinct)

lemma map_latest_distinct:
  "distinct (map getId es) \<Longrightarrow> map (latest es) es = es"
  by (simp add: map_idI latest_distinct)

lemma add_selectors:
  "variantSetIds (addVariantSet d e) = variantSetIds d @ [getId e]"
  "variantSetIdMap (addVariantSet d e) = (variantSetIdMap d)(getId e \<mapsto> e)"
  "readGroupSetIds (addVariantSet d e) = readGroupSetIds d"
  "readGroupSetIdMap (addVariantSet d e) = readGroupSetIdMap d"
  "readGroupSetNameMap (addVariantSet d e) = readGroupSetNameMap d"
  "rnaQuantificationIds (addVariantSet d e) = rnaQuantificationIds d"
  "rnaQuantificationIdMap (addVariantSet d e) = rnaQuantificationIdMap d"
  "sequenceAnnotationIds (addVariantSet d e) = sequenceAnnotationIds d"
  "sequenceAnnotationIdMap (addVariantSet d e) = sequenceAnnotationIdMap d"
  "localId (addVariantSet d e) = localId d"
  "description (addVariantSet d e) = description d"
  "variantSetIds (addReadGroupSet d e) = variantSetIds d"
  "variantSetIdMap (addReadGroupSet d e) = variantSetIdMap d"
  "readGroupSetIds (addReadGroupSet d e) = readGroupSetIds d @ [getId e]"
  "readGroupSetIdMap (addReadGroupSet d e) = (readGroupSetIdMap d)(getId e \<mapsto> e)"
  "readGroupSetNameMap (addReadGroupSet d e) = (readGroupSetNameMap d)(getLocalId e \<mapsto> e)"
  "rnaQuantificationIds (addReadGroupSet d e) = rnaQuantificationIds d"
  "rnaQuantificationIdMap (addReadGroupSet d e) = rnaQuantificationIdMap d"
  "sequenceAnnotationIds (addReadGroupSet d e) = sequenceAnnotationIds d"
  "sequenceAnnotationIdMap (addReadGroupSet d e) = sequenceAnnotationIdMap d"
  "localId (addReadGroupSet d e) = localId d"
  "description (addReadGroupSet d e) = description d"
  "variantSetIds (addRnaQuantification d e) = variantSetIds d"
  "variantSetIdMap (addRnaQuantification d e) = variantSetIdMap d"
  "readGroupSetIds (addRnaQuantification d e) = readGroupSetIds d"
  "readGroupSetIdMap (addRnaQuantification d e) = readGroupSetIdMap d"
  "readGroupSetNameMap (addRnaQuantification d e) = readGroupSetNameMap d"
  "rnaQuantificationIds (addRnaQuantification d e) = rnaQuantificationIds d @ [getId e]"
  "rnaQuantificationIdMap (addRnaQuantification d e) = (rnaQuantificationIdMap d)(getId e \<mapsto> e)"
  "sequenceAnnotationIds (addRnaQuantification d e) = sequenceAnnotationIds d"
  "sequenceAnnotationIdMap (addRnaQuantification d e) = sequenceAnnotationIdMap d"
  "localId (addRnaQuantification d e) = localId d"
  "description (addRnaQuantification d e) = description d"
  "variantSetIds (addSequenceAnnotation d e) = variantSetIds d"
  "variantSetIdMap (addSequenceAnnotation d e) = variantSetIdMap d"
  "readGroupSetIds (addSequenceAnnotation d e) = readGroupSetIds d"
  "readGroupSetIdMap (addSequenceAnnotation d e) = readGroupSetIdMap d"
  "readGroupSetNameMap (addSequenceAnnotation d e) = readGroupSetNameMap d"
  "rnaQuantificationIds (addSequenceAnnotation d e) = rnaQuantificationIds d"
  "rnaQuantificationIdMap (addSequenceAnnotation d e) = rnaQuantificationIdMap d"
  "sequenceAnnotationIds (addSequenceAnnotation d e) = sequenceAnnotationIds d @ [getId e]"
  "sequenceAnnotationIdMap (addSequenceAnnotation d e) = (sequenceAnnotationIdMap d)(getId e \<mapsto> e)"
  "localId (addSequenceAnnotation d e) = localId d"
  "description (addSequenceAnnotation d e) = description d"
  by (simp_all add: addVariantSet_def addReadGroupSet_def addRnaQuantification_def
      addSequenceAnnotation_def Let_def)


lemma variantSetIds_populate:
  "variantSetIds (populate d cs) = variantSetIds d @ map getId (variantSetsOf cs)"
proof (induction cs arbitrary: d)
  case Nil show ?case by (simp add: populate_Nil)
next
  case (Cons c cs) then show ?case
    by (cases c) (simp_all add: populate_Cons add_selectors)
qed

lemma variantSetIdMap_populate:
  "variantSetIdMap (populate d cs) = variantSetIdMap d ++ dict_of getId (variantSetsOf cs)"
proof (induction cs arbitrary: d)
  case Nil show ?case by (simp add: populate_Nil dict_of_Nil)
next
  case (Cons c cs)
  have "variantSetIdMap (populate (do_add d c) cs) =
          variantSetIdMap (do_add d c) ++ dict_of getId (variantSetsOf cs)"
    by (rule Cons.IH)
  then show ?case
    by (cases c)
       (simp_all only: populate_Cons do_add.simps add_selectors variantSetsOf.simps dict_of_push)
qed

lemma readGroupSetIds_populate:
  "readGroupSetIds (populate d cs) = readGroupSetIds d @ map getId (readGroupSetsOf cs)"
proof (induction cs arbitrary: d)
  case Nil show ?case by (simp add: populate_Nil)
next
  case (Cons c cs) then show ?case
    by (cases c) (simp_all add: populate_Cons add_selectors)
qed

lemma readGroupSetIdMap_populate:
  "readGroupSetIdMap (populate d cs) = readGroupSetIdMap d ++ dict_of getId (readGroupSetsOf cs)"
proof (induction cs arbitrary: d)
  case Nil show ?case by (simp add: populate_Nil dict_of_Nil)
next
  case (Cons c cs)
  have "readGroupSetIdMap (populate (do_add d c) cs) =
          readGroupSetIdMap (do_add d c) ++ dict_of getId (readGroupSetsOf cs)"
    by (rule Cons.IH)
  then show ?case
    by (cases c)
       (simp_all only: populate_Cons do_add.simps add_selectors readGroupSetsOf.simps dict_of_push)
qed

lemma readGroupSetNameMap_populate:
  "readGroupSetNameMap (populate d cs) =
     readGroupSetNameMap d ++ dict_of getLocalId (readGroupSetsOf cs)"
proof (induction cs arbitrary: d)
  case Nil show ?case by (simp add: populate_Nil dict_of_Nil)
next
  case (Cons c cs)
  have "readGroupSetNameMap (populate (do_add d c) cs) =
          readGroupSetNameMap (do_add d c) ++ dict_of getLocalId (readGroupSetsOf cs)"
    by (rule Cons.IH)
  then show ?case
    by (cases c)
       (simp_all only: populate_Cons do_add.simps add_selectors readGroupSetsOf.simps dict_of_push)
qed

lemma rnaQuantificationIds_populate:
  "rnaQuantificationIds (populate d cs) =
     rnaQuantificationIds d @ map getId (rnaQuantificationsOf cs)"
proof (induction cs arbitrary: d)
  case Nil show ?case by (simp add: populate_Nil)
next
  case (Cons c cs) then show ?case
    by (cases c) (simp_all add: populate_Cons add_selectors)
qed

lemma rnaQuantificationIdMap_populate:
  "rnaQuantificationIdMap (populate d cs) =
     rnaQuantificationIdMap d ++ dict_of getId (rnaQuantificationsOf cs)"
proof (induction cs arbitrary: d)
  case Nil show ?case by (simp add: populate_Nil dict_of_Nil)
next
  case (Cons c cs)
  have "rnaQuantificationIdMap (populate (do_add d c) cs) =
          rnaQuantificationIdMap (do_add d c) ++ dict_of getId (rnaQuantificationsOf cs)"
    by (rule Cons.IH)
  then show ?case
    by (cases c)
       (simp_all only: populate_Cons do_add.simps add_selectors rnaQuantificationsOf.simps dict_of_push)
qed

lemma sequenceAnnotationIds_populate:
  "sequenceAnnotationIds (populate d cs) =
     sequenceAnnotationIds d @ map getId (sequenceAnnotationsOf cs)"
proof (induction cs arbitrary: d)
  case Nil show ?case by (simp add: populate_Nil)
next
  case (Cons c cs) then show ?case
    by (cases c) (simp_all add: populate_Cons add_selectors)
qed

lemma localId_populate: "localId (populate d cs) = localId d"
proof (induction cs arbitrary: d)
  case Nil show ?case by (simp add: populate_Nil)
next
  case (Cons c cs) then show ?case
    by (cases c) (simp_all add: populate_Cons add_selectors)
qed

lemma description_populate: "description (populate d cs) = description d"
proof (induction cs arbitrary: d)
  case Nil show ?case by (simp add: populate_Nil)
next
  case (Cons c cs) then show ?case
    by (cases c) (simp_all add: populate_Cons add_selectors)
qed

section \<open>Lookups on a populated dataset\<close>

lemma init_fields:
  "variantSetIds (AbstractDataset_init l) = []"
  "variantSetIdMap (AbstractDataset_init l) = Map.empty"
  "readGroupSetIds (AbstractDataset_init l) = []"
  "readGroupSetIdMap (AbstractDataset_init l) = Map.empty"
  "readGroupSetNameMap (AbstractDataset_init l) = Map.empty"
  "rnaQuantificationIds (AbstractDataset_init l) = []"
  "rnaQuantificationIdMap (AbstractDataset_init l) = Map.empty"
  "sequenceAnnotationIds (AbstractDataset_init l) = []"
  "sequenceAnnotationIdMap (AbstractDataset_init l) = Map.empty"
  "localId (AbstractDataset_init l) = l"
  "description (AbstractDataset_init l) = PyNone"
  by (simp_all add: AbstractDataset_init_def)

lemma lookups_by_id:
  "getVariantSet d i =
     (case variantSetIdMap d i of None \<Rightarrow> Inl (VariantSetNotFoundException i) | Some e \<Rightarrow> Inr e)"
  "getReadGroupSet d i =
     (case readGroupSetIdMap d i of None \<Rightarrow> Inl (ReadGroupNotFoundException i) | Some e \<Rightarrow> Inr e)"
  "getRnaQuantification d i =
     (case rnaQuantificationIdMap d i of
        None \<Rightarrow> Inl (RnaQuantificationNotFoundException i) | Some e \<Rightarrow> Inr e)"
  "getSequenceAnnotation d i =
     (case sequenceAnnotationIdMap d i of
        None \<Rightarrow> Inl (SequenceAnnotationNotFoundException i) | Some e \<Rightarrow> Inr e)"
  by (simp_all add: getVariantSet_def getReadGroupSet_def getRnaQuantification_def
      getSequenceAnnotation_def dict_get_def split: option.splits)

lemma by_name_by_id:
  "getReadGroupSetByName d name =
     (case readGroupSetNameMap d name of
        None \<Rightarrow> Inl (ReadGroupSetNameNotFoundException name) | Some e \<Rightarrow> Inr e)"
  "getReadGroupSet d i =
     (case readGroupSetIdMap d i of None \<Rightarrow> Inl (ReadGroupNotFoundException i) | Some e \<Rightarrow> Inr e)"
  by (simp_all add: getReadGroupSetByName_def getReadGroupSet_def dict_get_def
      split: option.splits)

lemma getSequenceAnnotations_populate:
  "getSequenceAnnotations (populate (AbstractDataset_init l) cs) =
     map getId (sequenceAnnotationsOf cs)"
  by (simp add: getSequenceAnnotations_def sequenceAnnotationIds_populate init_fields)

lemma getVariantSets_populate:
  "getVariantSets (populate (AbstractDataset_init l) cs) =
     Inr (map (latest (variantSetsOf cs)) (variantSetsOf cs))"
  by (simp add: getVariantSets_def variantSetIds_populate variantSetIdMap_populate
      init_fields lookup_all_dict_of)

lemma getReadGroupSets_populate:
  "getReadGroupSets (populate (AbstractDataset_init l) cs) =
     Inr (map (latest (readGroupSetsOf cs)) (readGroupSetsOf cs))"
  by (simp add: getReadGroupSets_def readGroupSetIds_populate readGroupSetIdMap_populate
      init_fields lookup_all_dict_of)

lemma getRnaQuantifications_populate:
  "getRnaQuantifications (populate (AbstractDataset_init l) cs) =
     Inr (map (latest (rnaQuantificationsOf cs)) (rnaQuantificationsOf cs))"
  by (simp add: getRnaQuantifications_def rnaQuantificationIds_populate
      rnaQuantificationIdMap_populate init_fields lookup_all_dict_of)

lemma byIndex_general:
  assumes ids: "ids = map getId es" and m: "m = dict_of getId es"
  shows "(case list_get ids i of Inl e \<Rightarrow> Inl e | Inr k \<Rightarrow> dict_get m k) =
     (if 0 \<le> i \<and> i < int (length es) then Inr (latest es (es ! nat i))
      else if - int (length es) \<le> i \<and> i < 0 then Inr (latest es (es ! nat (i + int (length es))))
      else Inl IndexError)"
proof -
  have look: "dict_get m (getId (es ! k)) = Inr (latest es (es ! k))" if "k < length es" for k
    using that by (simp add: m dict_get_def dict_of_member latest_def)
  show ?thesis
  proof (cases "0 \<le> i \<and> i < int (length es)")
    case True
    then have "nat i < length es" by linarith
    with True show ?thesis by (simp add: list_get_def ids look)
  next
    case False
    show ?thesis
    proof (cases "- int (length es) \<le> i \<and> i < 0")
      case True
      then have "nat (i + int (length es)) < length es" by linarith
      with True show ?thesis by (simp add: list_get_def ids look)
    next
      case F2: False
      with False show ?thesis by (auto simp add: list_get_def ids)
    qed
  qed
qed

lemma dict_of_agree:
  assumes compat: "\<forall>x\<in>set es. \<forall>y\<in>set es. (getId x = getId y) = (getLocalId x = getLocalId y)"
    and e: "e \<in> set es"
  shows "dict_of getId es (getId e) = dict_of getLocalId es (getLocalId e)"
proof -
  have "filter (\<lambda>x. getId x = getId e) es = filter (\<lambda>x. getLocalId x = getLocalId e) es"
    using compat e by (intro filter_cong) auto
  then show ?thesis by (simp add: dict_of_member e)
qed

lemma maps_agree_when_ids_follow_names:
  fixes l :: string and cs :: "add_call list"
  defines "d \<equiv> populate (AbstractDataset_init l) cs"
  assumes compat:
    "\<forall>x\<in>set (readGroupSetsOf cs). \<forall>y\<in>set (readGroupSetsOf cs).
       (getId x = getId y) = (getLocalId x = getLocalId y)"
  shows "ran (readGroupSetNameMap d) = ran (readGroupSetIdMap d)
   \<and> (\<forall>name e. getReadGroupSetByName d name = Inr e \<longrightarrow>
        getReadGroupSet d (getId e) = Inr e)"
proof -
  let ?es = "readGroupSetsOf cs"
  have nm: "readGroupSetNameMap d = dict_of getLocalId ?es"
    by (simp add: d_def readGroupSetNameMap_populate init_fields)
  have im: "readGroupSetIdMap d = dict_of getId ?es"
    by (simp add: d_def readGroupSetIdMap_populate init_fields)
  have n2i: "dict_of getId ?es (getId e) = Some e" if "dict_of getLocalId ?es k = Some e" for k e
  proof -
    from that have "e \<in> set ?es" and "getLocalId e = k" by (auto dest: dict_of_Some)
    with compat that show ?thesis by (simp add: dict_of_agree)
  qed
  have i2n: "dict_of getLocalId ?es (getLocalId e) = Some e" if "dict_of getId ?es k = Some e" for k e
  proof -
    from that have "e \<in> set ?es" and "getId e = k" by (auto dest: dict_of_Some)
    with compat that show ?thesis by (simp add: dict_of_agree [symmetric])
  qed
  have "ran (dict_of getLocalId ?es) = ran (dict_of getId ?es)"
    unfolding ran_def using n2i i2n by blast
  moreover have "getReadGroupSet d (getId e) = Inr e" if "getReadGroupSetByName d name = Inr e"
    for name e
  proof -
    from that have "dict_of getLocalId ?es name = Some e"
      by (simp add: by_name_by_id nm split: option.splits)
    then have "dict_of getId ?es (getId e) = Some e" by (rule n2i)
    then show ?thesis by (simp add: by_name_by_id im)
  qed
  ultimately show ?thesis by (simp add: nm im)
qed

section \<open>Loops of the loaders\<close>

lemma for_each_append:
  "for_each body s (xs @ ys) =
     (case for_each body s xs of Inl e \<Rightarrow> Inl e | Inr s' \<Rightarrow> for_each body s' ys)"
  by (induction xs arbitrary: s) (simp_all split: sum.splits)

lemma for_each_abort:
  "for_each body s pre = Inr s' \<Longrightarrow> body s' x = Inl e \<Longrightarrow>
   for_each body s (pre @ x # post) = Inl e"
  by (simp add: for_each_append)

lemma localId_do_add: "localId (do_add d c) = localId d"
  by (cases c) (simp_all add: add_selectors)

lemma for_each_collect:
  assumes body: "\<And>d x. localId d = l \<Longrightarrow>
      body d x = (if q x then (case f x of Inl e \<Rightarrow> Inl e | Inr v \<Rightarrow> Inr (do_add d (K v)))
                  else Inr d)"
    and l: "localId d = l"
  shows "for_each body d xs =
     (case collect (map f (filter q xs)) of
        Inl e \<Rightarrow> Inl e
      | Inr vs \<Rightarrow> Inr (populate d (map K vs)))"
  using l
proof (induction xs arbitrary: d)
  case Nil
  show ?case by (simp add: populate_Nil)
next
  case (Cons x xs)
  show ?case
  proof (cases "q x")
    case False
    with Cons show ?thesis by (simp add: body)
  next
    case True
    show ?thesis
    proof (cases "f x")
      case (Inl e)
      with True Cons.prems show ?thesis by (simp add: body)
    next
      case (Inr v)
      have "localId (do_add d (K v)) = l" using Cons.prems by (simp add: localId_do_add)
      then have "for_each body (do_add d (K v)) xs =
        (case collect (map f (filter q xs)) of
           Inl e \<Rightarrow> Inl e
         | Inr vs \<Rightarrow> Inr (populate (do_add d (K v)) (map K vs)))"
        by (rule Cons.IH)
      with True Inr Cons.prems show ?thesis
        by (simp add: body populate_Cons split: sum.splits)
    qed
  qed
qed

lemma collect_Inr_length: "collect rs = Inr vs \<Longrightarrow> length vs = length rs"
  by (induction rs arbitrary: vs) (auto split: sum.splits)


lemma collect_map_Inr: "collect (map Inr vs) = Inr vs"
  by (induction vs) simp_all

lemma collect_Inl: "collect rs = Inl e \<Longrightarrow> Inl e \<in> set rs"
  by (induction rs) (auto split: sum.splits)

subsection \<open>The loops of the file-system loader\<close>

lemma variantSetBody_collect:
  "localId d = l \<Longrightarrow>
   for_each (variantSetBody fs co backend dir) d xs =
     (case collect (map (\<lambda>x. HtslibVariantSet co l x (path_join dir x) backend)
                     (filter (\<lambda>x. isdir fs (path_join dir x)) xs)) of
        Inl e \<Rightarrow> Inl e
      | Inr vs \<Rightarrow> Inr (populate d (map AddVariantSet vs)))"
  by (rule for_each_collect [where l = l])
     (simp_all add: variantSetBody_def Let_def split: sum.splits)

lemma readGroupSetBody_collect:
  "localId d = l \<Longrightarrow>
   for_each (readGroupSetBody co backend dir) d xs =
     (case collect (map (\<lambda>x. HtslibReadGroupSet co l (fst (splitext x)) (path_join dir x) backend)
                     (filter (\<lambda>x. fnmatch x ''*.bam'') xs)) of
        Inl e \<Rightarrow> Inl e
      | Inr vs \<Rightarrow> Inr (populate d (map AddReadGroupSet vs)))"
  by (rule for_each_collect [where l = l])
     (simp_all add: readGroupSetBody_def Let_def split: sum.splits)

lemma rnaQuantBody_collect:
  "localId d = l \<Longrightarrow>
   for_each (rnaQuantBody fs co dir) d xs =
     (case collect (map (\<lambda>x. RNASeqResult co l x (path_join dir x))
                     (filter (\<lambda>x. isdir fs (path_join dir x)) xs)) of
        Inl e \<Rightarrow> Inl e
      | Inr vs \<Rightarrow> Inr (populate d (map AddRnaQuantification vs)))"
  by (rule for_each_collect [where l = l])
     (simp_all add: rnaQuantBody_def Let_def split: sum.splits)

lemma seqAnnotationBody_collect:
  assumes "localId d = l"
  shows "for_each (seqAnnotationBody co dir) d xs =
     (case collect (map (\<lambda>x. SequenceAnnotation co l x (path_join dir x)) xs) of
        Inl e \<Rightarrow> Inl e
      | Inr vs \<Rightarrow> Inr (populate d (map AddSequenceAnnotation vs)))"
proof -
  have "for_each (seqAnnotationBody co dir) d xs =
     (case collect (map (\<lambda>x. SequenceAnnotation co l x (path_join dir x))
                     (filter (\<lambda>x. True) xs)) of
        Inl e \<Rightarrow> Inl e
      | Inr vs \<Rightarrow> Inr (populate d (map AddSequenceAnnotation vs)))"
    by (rule for_each_collect [where l = l])
       (simp_all add: seqAnnotationBody_def Let_def assms split: sum.splits)
  then show ?thesis by simp
qed

lemma scan_keeps:
  "scanVariants fs co backend dataDir d = Inr d' \<Longrightarrow>
     description d' = description d \<and> localId d' = localId d"
  "scanReads fs co backend dataDir d = Inr d' \<Longrightarrow>
     description d' = description d \<and> localId d' = localId d"
  "scanRnaQuant fs co dataDir d = Inr d' \<Longrightarrow>
     description d' = description d \<and> localId d' = localId d"
  "scanSeqAnnotations fs co dataDir d = Inr d' \<Longrightarrow>
     description d' = description d \<and> localId d' = localId d"
  by (auto simp: scanVariants_def scanReads_def scanRnaQuant_def scanSeqAnnotations_def
      scan_def Let_def variantSetBody_collect readGroupSetBody_collect rnaQuantBody_collect
      seqAnnotationBody_collect description_populate localId_populate split: sum.splits)

lemma scanAll_keeps:
  assumes "scanAll fs co backend dataDir d = Inr d'"
  shows "description d' = description d"
proof -
  from assms obtain d2 d3 d4 where
    "scanVariants fs co backend dataDir d = Inr d2"
    "scanReads fs co backend dataDir d2 = Inr d3"
    "scanRnaQuant fs co dataDir d3 = Inr d4"
    "scanSeqAnnotations fs co dataDir d4 = Inr d'"
    by (auto simp: scanAll_def split: sum.splits)
  then show ?thesis by (simp add: scan_keeps)
qed

subsection \<open>The metadata file\<close>

lemma setMetadata_absent:
  "\<not> isfile fs (dataDir @ ''.json'') \<Longrightarrow> setMetadata fs dataDir d = Inr d"
  by (simp add: setMetadata_def)

lemma setMetadata_missing_key:
  "isfile fs (dataDir @ ''.json'') \<Longrightarrow> json_load fs (dataDir @ ''.json'') = Inr (PyDict kvs) \<Longrightarrow>
   map_of kvs ''description'' = None \<Longrightarrow>
   setMetadata fs dataDir d =
     Inl (MissingDatasetMetadataException (dataDir @ ''.json'') (str_KeyError ''description''))"
  by (simp add: setMetadata_def)

lemma setMetadata_present:
  "isfile fs (dataDir @ ''.json'') \<Longrightarrow> json_load fs (dataDir @ ''.json'') = Inr (PyDict kvs) \<Longrightarrow>
   map_of kvs ''description'' = Some v \<Longrightarrow>
   setMetadata fs dataDir d = Inr (d\<lparr> description := v \<rparr>)"
  by (simp add: setMetadata_def)

subsection \<open>Matching and splitting file names\<close>

lemma fnmatchcase_literal:
  "CHR ''*'' \<notin> set p \<Longrightarrow> CHR ''?'' \<notin> set p \<Longrightarrow> fnmatchcase x p = (x = p)"
  by (induction x p rule: fnmatchcase.induct) auto

lemma fnmatchcase_star:
  "fnmatchcase x (CHR ''*'' # p) = (\<exists>a b. x = a @ b \<and> fnmatchcase b p)"
proof (induction x)
  case Nil
  show ?case by simp
next
  case (Cons c cs)
  have "(\<exists>a b. c # cs = a @ b \<and> fnmatchcase b p) =
        (fnmatchcase (c # cs) p \<or> (\<exists>a b. cs = a @ b \<and> fnmatchcase b p))"
    by (auto simp: Cons_eq_append_conv)
  with Cons show ?case by simp
qed

lemma fnmatch_bam: "fnmatch x ''*.bam'' = (\<exists>s. x = s @ ''.bam'')"
  by (simp add: fnmatch_def normcase_def fnmatchcase_star fnmatchcase_literal)

lemma rfind_dot_bam: "rfind (s @ ''.bam'') CHR ''.'' = int (length s)"
  by (simp add: rfind_def)

lemma rfind_sep_bam: "CHR ''/'' \<notin> set s \<Longrightarrow> rfind (s @ ''.bam'') CHR ''/'' = - 1"
  by (simp add: rfind_def)

lemma splitext_bam:
  assumes "CHR ''/'' \<notin> set s"
  shows "splitext (s @ ''.bam'') =
     (if \<exists>c\<in>set s. c \<noteq> CHR ''.'' then (s, ''.bam'') else (s @ ''.bam'', []))"
proof -
  have "rfind (s @ ''.bam'') CHR ''/'' = - 1" using assms by (rule rfind_sep_bam)
  moreover have "rfind (s @ ''.bam'') CHR ''.'' = int (length s)" by (rule rfind_dot_bam)
  ultimately show ?thesis
    by (simp add: splitext_def Let_def list_ex_iff)
qed

subsection \<open>A concrete data directory\<close>

lemma example_fs_sel:
  "isfile (example_fs js) p =
     (p \<in> set (''data/reads/rg1.bam'' # ''data/reads/notes.txt'' # map fst js))"
  "isdir (example_fs js) p =
     (p \<in> set [''data'', ''data/variants'', ''data/variants/vs1'', ''data/reads'',
                ''data/rnaQuant'', ''data/sequenceAnnotations''])"
  "listdir (example_fs js) p =
     (case map_of [(''data'', [''variants'', ''reads'', ''rnaQuant'', ''sequenceAnnotations'']),
        (''data/variants'', [''vs1'']),
        (''data/reads'', [''rg1.bam'', ''notes.txt'']),
        (''data/rnaQuant'', []),
        (''data/sequenceAnnotations'', [])] p of
        None \<Rightarrow> Inl (OSError p) | Some entries \<Rightarrow> Inr entries)"
  "json_load (example_fs js) p =
     (case map_of js p of None \<Rightarrow> Inl (OSError p) | Some v \<Rightarrow> Inr v)"
  by (simp_all add: example_fs_def mk_fs_def)

lemma example_co_sel:
  "HtslibVariantSet example_co parent l path backend = from_file parent l path"
  "HtslibReadGroupSet example_co parent l path backend = from_file parent l path"
  "RNASeqResult example_co parent l path = from_file parent l path"
  "SequenceAnnotation example_co parent l path = from_file parent l path"
  "SimulatedVariantSet example_co parent l seed n v = Inr (mk_entity parent l (format_int seed))"
  "SimulatedReadGroupSet example_co parent l r seed n m =
     Inr (mk_entity parent l (format_int seed))"
  "SimulatedRNASeqResult example_co parent l = Inr (mk_entity parent l [])"
  by (simp_all add: example_co_def)

lemma fnmatch_rg1: "fnmatch ''rg1.bam'' ''*.bam''"
  by (simp add: fnmatch_def normcase_def)

lemma fnmatch_notes: "\<not> fnmatch ''notes.txt'' ''*.bam''"
  by (simp add: fnmatch_def normcase_def)

lemma splitext_rg1: "splitext ''rg1.bam'' = (''rg1'', ''.bam'')"
  by (simp add: splitext_def rfind_def Let_def)

lemma example_scanAll:
  "localId d = ''ds'' \<Longrightarrow>
   scanAll (example_fs js) example_co ''b'' ''data'' d =
     Inr (populate d
       [AddVariantSet (mk_entity ''ds'' ''vs1'' ''data/variants/vs1''),
        AddReadGroupSet (mk_entity ''ds'' ''rg1'' ''data/reads/rg1.bam'')])"
  by (simp add: scanAll_def scanVariants_def scanReads_def scanRnaQuant_def
      scanSeqAnnotations_def scan_def Let_def path_join_def example_fs_sel example_co_sel
      variantSetBody_def readGroupSetBody_def from_file_def fnmatch_rg1 fnmatch_notes
      splitext_rg1 populate_def add_selectors)

lemma mk_fs_sel:
  "isfile (mk_fs files dirs listings jsons) p = (p \<in> set files)"
  "isdir (mk_fs files dirs listings jsons) p = (p \<in> set dirs)"
  "listdir (mk_fs files dirs listings jsons) p =
     (case map_of listings p of None \<Rightarrow> Inl (OSError p) | Some entries \<Rightarrow> Inr entries)"
  "json_load (mk_fs files dirs listings jsons) p =
     (case map_of jsons p of None \<Rightarrow> Inl (OSError p) | Some v \<Rightarrow> Inr v)"
  by (simp_all add: mk_fs_def)

lemma scan_missing: "listdir fs dir = Inl e \<Longrightarrow> scan fs dir body d = Inl e"
  by (simp add: scan_def)

lemma scan_abort:
  "listdir fs dir = Inr (pre @ x # post) \<Longrightarrow> for_each body d pre = Inr d' \<Longrightarrow>
   body d' x = Inl e \<Longrightarrow> scan fs dir body d = Inl e"
  by (simp add: scan_def for_each_abort)

subsection \<open>The loops of the simulated dataset\<close>









section \<open>Properties of the catalog\<close>

subsection \<open>C1: adding under an id that exists\<close>

text \<open>
  C1 says that an add under an id (or, for read-group sets, a local name) that the
  collection already holds fails with a Duplicate error and leaves count and contents as
  they were. The add methods have no such check. Here a second variant set is added under
  the id \<open>a\<close>: the add returns, the count goes from 1 to 2, and the accessor returns the second
  entity at both positions. Likewise a second read-group set under the local name \<open>n\<close>
  replaces the first in the name map.
\<close>

theorem add_duplicate_counterexample:
  "getNumVariantSets
     (addVariantSet
        (addVariantSet (AbstractDataset_init ''ds'')
           \<lparr> getId = ''a'', getLocalId = ''n'', content = ''x'' \<rparr>)
        \<lparr> getId = ''a'', getLocalId = ''n'', content = ''y'' \<rparr>) = 2
   \<and> getVariantSets
     (addVariantSet
        (addVariantSet (AbstractDataset_init ''ds'')
           \<lparr> getId = ''a'', getLocalId = ''n'', content = ''x'' \<rparr>)
        \<lparr> getId = ''a'', getLocalId = ''n'', content = ''y'' \<rparr>) =
     Inr [\<lparr> getId = ''a'', getLocalId = ''n'', content = ''y'' \<rparr>,
          \<lparr> getId = ''a'', getLocalId = ''n'', content = ''y'' \<rparr>]
   \<and> getNumReadGroupSets
     (addReadGroupSet
        (addReadGroupSet (AbstractDataset_init ''ds'')
           \<lparr> getId = ''a'', getLocalId = ''n'', content = ''x'' \<rparr>)
        \<lparr> getId = ''b'', getLocalId = ''n'', content = ''y'' \<rparr>) = 2
   \<and> getReadGroupSetByName
     (addReadGroupSet
        (addReadGroupSet (AbstractDataset_init ''ds'')
           \<lparr> getId = ''a'', getLocalId = ''n'', content = ''x'' \<rparr>)
        \<lparr> getId = ''b'', getLocalId = ''n'', content = ''y'' \<rparr>) ''n'' =
     Inr \<lparr> getId = ''b'', getLocalId = ''n'', content = ''y'' \<rparr>"
  by (simp add: getNumVariantSets_def getVariantSets_def getNumReadGroupSets_def
      getReadGroupSetByName_def add_selectors AbstractDataset_init_def dict_get_def)

text \<open>
  C1 as amended: an add never fails, whether or not the id (or local name) is already
  there. It makes the count one larger, and afterwards the lookups by the entity's id, by
  its local name (read-group sets) and by the last index return the entity just added.
\<close>

theorem add_appends_and_overwrites:
  "getNumVariantSets (addVariantSet d e) = getNumVariantSets d + 1
   \<and> getVariantSet (addVariantSet d e) (getId e) = Inr e
   \<and> (k \<noteq> getId e \<longrightarrow> getVariantSet (addVariantSet d e) k = getVariantSet d k)
   \<and> getVariantSetByIndex (addVariantSet d e) (int (getNumVariantSets d)) = Inr e
   \<and> getNumReadGroupSets (addReadGroupSet d e) = getNumReadGroupSets d + 1
   \<and> getReadGroupSet (addReadGroupSet d e) (getId e) = Inr e
   \<and> (k \<noteq> getId e \<longrightarrow> getReadGroupSet (addReadGroupSet d e) k = getReadGroupSet d k)
   \<and> getReadGroupSetByName (addReadGroupSet d e) (getLocalId e) = Inr e
   \<and> (k \<noteq> getLocalId e \<longrightarrow>
        getReadGroupSetByName (addReadGroupSet d e) k = getReadGroupSetByName d k)
   \<and> getReadGroupSetByIndex (addReadGroupSet d e) (int (getNumReadGroupSets d)) = Inr e
   \<and> length (getRnaQuantificationIds (addRnaQuantification d e)) =
       length (getRnaQuantificationIds d) + 1
   \<and> getRnaQuantification (addRnaQuantification d e) (getId e) = Inr e
   \<and> (k \<noteq> getId e \<longrightarrow>
        getRnaQuantification (addRnaQuantification d e) k = getRnaQuantification d k)
   \<and> length (getSequenceAnnotations (addSequenceAnnotation d e)) =
       length (getSequenceAnnotations d) + 1
   \<and> getSequenceAnnotation (addSequenceAnnotation d e) (getId e) = Inr e
   \<and> (k \<noteq> getId e \<longrightarrow>
        getSequenceAnnotation (addSequenceAnnotation d e) k = getSequenceAnnotation d k)"
  by (simp add: getNumVariantSets_def getNumReadGroupSets_def getRnaQuantificationIds_def
      getSequenceAnnotations_def lookups_by_id by_name_by_id getVariantSetByIndex_def
      getReadGroupSetByIndex_def add_selectors dict_get_def list_get_def Let_def)

theorem add_appends_and_overwrites_witness:
  "getNumVariantSets
     (addVariantSet
        (addVariantSet (AbstractDataset_init ''ds'') (mk_entity ''ds'' ''a'' ''x''))
        (mk_entity ''ds'' ''b'' ''y'')) = 2
   \<and> getVariantSet
     (addVariantSet
        (addVariantSet (AbstractDataset_init ''ds'') (mk_entity ''ds'' ''a'' ''x''))
        (mk_entity ''ds'' ''b'' ''y'')) ''ds:b'' = Inr (mk_entity ''ds'' ''b'' ''y'')
   \<and> getVariantSet
     (addVariantSet
        (addVariantSet (AbstractDataset_init ''ds'') (mk_entity ''ds'' ''a'' ''x''))
        (mk_entity ''ds'' ''b'' ''y'')) ''ds:a'' = Inr (mk_entity ''ds'' ''a'' ''x'')"
  using
    add_appends_and_overwrites
      [of "addVariantSet (AbstractDataset_init ''ds'') (mk_entity ''ds'' ''a'' ''x'')"
          "mk_entity ''ds'' ''b'' ''y''" "''ds:a''"]
    add_appends_and_overwrites
      [of "AbstractDataset_init ''ds''" "mk_entity ''ds'' ''a'' ''x''" "''ds:a''"]
  by (simp add: getNumVariantSets_def add_selectors init_fields mk_entity_def)

subsection \<open>C2: the accessors that return all entities\<close>

text \<open>
  C2 says that after any sequence of adds each accessor returns the added entities in
  insertion order. Two variant sets added under one id are a sequence of adds after which
  \<^verbatim>\<open>getVariantSets\<close> returns the second entity twice, not the first and then the second.
\<close>

theorem getAll_counterexample:
  "getVariantSets
     (populate (AbstractDataset_init ''ds'')
        [AddVariantSet \<lparr> getId = ''a'', getLocalId = ''n'', content = ''x'' \<rparr>,
         AddVariantSet \<lparr> getId = ''a'', getLocalId = ''n'', content = ''y'' \<rparr>]) =
     Inr [\<lparr> getId = ''a'', getLocalId = ''n'', content = ''y'' \<rparr>,
          \<lparr> getId = ''a'', getLocalId = ''n'', content = ''y'' \<rparr>]
   \<and> getVariantSets
     (populate (AbstractDataset_init ''ds'')
        [AddVariantSet \<lparr> getId = ''a'', getLocalId = ''n'', content = ''x'' \<rparr>,
         AddVariantSet \<lparr> getId = ''a'', getLocalId = ''n'', content = ''y'' \<rparr>]) \<noteq>
     Inr [\<lparr> getId = ''a'', getLocalId = ''n'', content = ''x'' \<rparr>,
          \<lparr> getId = ''a'', getLocalId = ''n'', content = ''y'' \<rparr>]"
  by (simp add: getVariantSets_populate latest_def)

text \<open>
  C2 as amended, for variant sets, read-group sets and RNA quantifications: after any
  sequence of adds on a fresh dataset the accessor succeeds and returns, at each position
  of the insertion order, the entity most recently added under the id added at that
  position; its length is the count of the collection; and when the ids of the added
  entities are pairwise distinct it returns exactly the added entities in insertion order.
\<close>

theorem getAll_insertion_order:
  fixes l :: string and cs :: "add_call list"
  defines "d \<equiv> populate (AbstractDataset_init l) cs"
  shows
  "getVariantSets d = Inr (map (latest (variantSetsOf cs)) (variantSetsOf cs))
   \<and> (distinct (map getId (variantSetsOf cs)) \<longrightarrow> getVariantSets d = Inr (variantSetsOf cs))
   \<and> getNumVariantSets d = length (variantSetsOf cs)
   \<and> getReadGroupSets d = Inr (map (latest (readGroupSetsOf cs)) (readGroupSetsOf cs))
   \<and> (distinct (map getId (readGroupSetsOf cs)) \<longrightarrow>
        getReadGroupSets d = Inr (readGroupSetsOf cs))
   \<and> getNumReadGroupSets d = length (readGroupSetsOf cs)
   \<and> getRnaQuantifications d =
        Inr (map (latest (rnaQuantificationsOf cs)) (rnaQuantificationsOf cs))
   \<and> (distinct (map getId (rnaQuantificationsOf cs)) \<longrightarrow>
        getRnaQuantifications d = Inr (rnaQuantificationsOf cs))
   \<and> length (getRnaQuantificationIds d) = length (rnaQuantificationsOf cs)"
  unfolding d_def
  by (simp add: getVariantSets_populate getReadGroupSets_populate
      getRnaQuantifications_populate map_latest_distinct getNumVariantSets_def
      getNumReadGroupSets_def getRnaQuantificationIds_def variantSetIds_populate
      readGroupSetIds_populate rnaQuantificationIds_populate init_fields)

theorem getAll_insertion_order_witness:
  "getVariantSets
     (populate (AbstractDataset_init ''ds'')
        [AddVariantSet (mk_entity ''ds'' ''v1'' []), AddReadGroupSet (mk_entity ''ds'' ''r1'' []),
         AddVariantSet (mk_entity ''ds'' ''v0'' []),
         AddRnaQuantification (mk_entity ''ds'' ''q1'' [])]) =
     Inr [mk_entity ''ds'' ''v1'' [], mk_entity ''ds'' ''v0'' []]
   \<and> getReadGroupSets
     (populate (AbstractDataset_init ''ds'')
        [AddVariantSet (mk_entity ''ds'' ''v1'' []), AddReadGroupSet (mk_entity ''ds'' ''r1'' []),
         AddVariantSet (mk_entity ''ds'' ''v0'' []),
         AddRnaQuantification (mk_entity ''ds'' ''q1'' [])]) =
     Inr [mk_entity ''ds'' ''r1'' []]
   \<and> getRnaQuantifications
     (populate (AbstractDataset_init ''ds'')
        [AddVariantSet (mk_entity ''ds'' ''v1'' []), AddReadGroupSet (mk_entity ''ds'' ''r1'' []),
         AddVariantSet (mk_entity ''ds'' ''v0'' []),
         AddRnaQuantification (mk_entity ''ds'' ''q1'' [])]) =
     Inr [mk_entity ''ds'' ''q1'' []]"
  using getAll_insertion_order
    [where cs = "[AddVariantSet (mk_entity ''ds'' ''v1'' []), AddReadGroupSet (mk_entity ''ds'' ''r1'' []),
          AddVariantSet (mk_entity ''ds'' ''v0'' []),
          AddRnaQuantification (mk_entity ''ds'' ''q1'' [])]" and l = "''ds''"]
  by (simp add: mk_entity_def latest_def)

subsection \<open>C3: lookups by id\<close>

text \<open>
  C3 says that each lookup by id fails, for an absent id, with the error of its own
  resource kind. \<^verbatim>\<open>getReadGroupSet\<close> raises \<^verbatim>\<open>ReadGroupNotFoundException\<close>, the error of a
  read group, where its docstring names \<^verbatim>\<open>ReadGroupSetNotFoundException\<close>. The lookup on a
  fresh dataset shows it.
\<close>

theorem getReadGroupSet_wrong_exception:
  "getReadGroupSet (AbstractDataset_init ''ds'') ''x'' = Inl (ReadGroupNotFoundException ''x'')
   \<and> getReadGroupSet (AbstractDataset_init ''ds'') ''x'' \<noteq>
       Inl (ReadGroupSetNotFoundException ''x'')"
  by (simp add: getReadGroupSet_def AbstractDataset_init_def)

subsection \<open>C4: lookups by index\<close>

text \<open>
  C4 says that the lookups by index fail for every index outside \<open>0 \<le> i < count\<close>. They
  index a Python list, so a negative index counts from the end: with one variant set,
  index \<open>-1\<close> returns it.
\<close>

theorem byIndex_counterexample:
  "getVariantSetByIndex
     (addVariantSet (AbstractDataset_init ''ds'')
        \<lparr> getId = ''a'', getLocalId = ''n'', content = ''x'' \<rparr>) (- 1) =
     Inr \<lparr> getId = ''a'', getLocalId = ''n'', content = ''x'' \<rparr>
   \<and> getNumVariantSets
     (addVariantSet (AbstractDataset_init ''ds'')
        \<lparr> getId = ''a'', getLocalId = ''n'', content = ''x'' \<rparr>) = 1"
  by (simp add: getVariantSetByIndex_def getNumVariantSets_def add_selectors init_fields
      list_get_def dict_get_def)

text \<open>
  C4 as amended: on a dataset populated by adds, \<^verbatim>\<open>getVariantSetByIndex(i)\<close> and
  \<^verbatim>\<open>getReadGroupSetByIndex(i)\<close> return the entry at position \<open>i\<close> of the insertion order
  for \<open>0 \<le> i < count\<close>, the entry at position \<open>count + i\<close> for \<open>-count \<le> i < 0\<close>, and fail
  with Python's \<^verbatim>\<open>IndexError\<close> for every other \<open>i\<close>. The entry at a position is the entity
  most recently added under the id added at that position: the entity added at that
  position itself when the ids are pairwise distinct.
\<close>

theorem byIndex_python_indexing:
  fixes l :: string and cs :: "add_call list" and i :: int
  defines "d \<equiv> populate (AbstractDataset_init l) cs"
  defines "vs \<equiv> variantSetsOf cs"
  defines "rs \<equiv> readGroupSetsOf cs"
  shows
  "getVariantSetByIndex d i =
     (if 0 \<le> i \<and> i < int (getNumVariantSets d) then Inr (latest vs (vs ! nat i))
      else if - int (getNumVariantSets d) \<le> i \<and> i < 0
           then Inr (latest vs (vs ! nat (i + int (getNumVariantSets d))))
      else Inl IndexError)
   \<and> getReadGroupSetByIndex d i =
     (if 0 \<le> i \<and> i < int (getNumReadGroupSets d) then Inr (latest rs (rs ! nat i))
      else if - int (getNumReadGroupSets d) \<le> i \<and> i < 0
           then Inr (latest rs (rs ! nat (i + int (getNumReadGroupSets d))))
      else Inl IndexError)
   \<and> (distinct (map getId vs) \<longrightarrow> (\<forall>k < length vs. latest vs (vs ! k) = vs ! k))
   \<and> (distinct (map getId rs) \<longrightarrow> (\<forall>k < length rs. latest rs (rs ! k) = rs ! k))"
proof -
  have nv: "getNumVariantSets d = length vs"
    by (simp add: getNumVariantSets_def d_def vs_def variantSetIds_populate init_fields)
  have nr: "getNumReadGroupSets d = length rs"
    by (simp add: getNumReadGroupSets_def d_def rs_def readGroupSetIds_populate init_fields)
  have a: "getVariantSetByIndex d i =
     (if 0 \<le> i \<and> i < int (length vs) then Inr (latest vs (vs ! nat i))
      else if - int (length vs) \<le> i \<and> i < 0
           then Inr (latest vs (vs ! nat (i + int (length vs))))
      else Inl IndexError)"
    unfolding getVariantSetByIndex_def
    by (rule byIndex_general)
       (simp_all add: d_def vs_def variantSetIds_populate variantSetIdMap_populate init_fields)
  have b: "getReadGroupSetByIndex d i =
     (if 0 \<le> i \<and> i < int (length rs) then Inr (latest rs (rs ! nat i))
      else if - int (length rs) \<le> i \<and> i < 0
           then Inr (latest rs (rs ! nat (i + int (length rs))))
      else Inl IndexError)"
    unfolding getReadGroupSetByIndex_def
    by (rule byIndex_general)
       (simp_all add: d_def rs_def readGroupSetIds_populate readGroupSetIdMap_populate
          init_fields)
  show ?thesis
    unfolding nv nr using a b by (simp add: latest_distinct)
qed

theorem byIndex_python_indexing_witness:
  "getVariantSetByIndex
     (populate (AbstractDataset_init ''ds'')
        [AddVariantSet (mk_entity ''ds'' ''v1'' []), AddVariantSet (mk_entity ''ds'' ''v0'' [])])
     1 = Inr (mk_entity ''ds'' ''v0'' [])
   \<and> getVariantSetByIndex
     (populate (AbstractDataset_init ''ds'')
        [AddVariantSet (mk_entity ''ds'' ''v1'' []), AddVariantSet (mk_entity ''ds'' ''v0'' [])])
     (- 2) = Inr (mk_entity ''ds'' ''v1'' [])
   \<and> getVariantSetByIndex
     (populate (AbstractDataset_init ''ds'')
        [AddVariantSet (mk_entity ''ds'' ''v1'' []), AddVariantSet (mk_entity ''ds'' ''v0'' [])])
     2 = Inl IndexError"
  using
    byIndex_python_indexing
      [where cs = "[AddVariantSet (mk_entity ''ds'' ''v1'' []),
            AddVariantSet (mk_entity ''ds'' ''v0'' [])]" and l = "''ds''" and i = 1]
    byIndex_python_indexing
      [where cs = "[AddVariantSet (mk_entity ''ds'' ''v1'' []),
            AddVariantSet (mk_entity ''ds'' ''v0'' [])]" and l = "''ds''" and i = "- 2"]
    byIndex_python_indexing
      [where cs = "[AddVariantSet (mk_entity ''ds'' ''v1'' []),
            AddVariantSet (mk_entity ''ds'' ''v0'' [])]" and l = "''ds''" and i = 2]
  by (simp add: mk_entity_def getNumVariantSets_def variantSetIds_populate init_fields
      latest_def)

subsection \<open>C8: the name map and the id map of read-group sets\<close>

text \<open>
  The classes of the sub-resources are outside this module. The id of an entity is the
  compound id built from its dataset and its local id, an injective encoding, so among the
  read-group sets of one dataset the id is an injective function \<open>enc\<close> of the local id.

  C8: in every state reached from a fresh dataset by adds, of read-group sets with such
  ids, the name map and the id map of the read-group sets hold exactly the same entities,
  and for every read-group set found by name the lookup by its id returns that same entity.
\<close>

theorem name_map_agrees_with_id_map:
  fixes l :: string and cs :: "add_call list" and enc :: "string \<Rightarrow> string"
  defines "d \<equiv> populate (AbstractDataset_init l) cs"
  assumes enc: "inj enc"
    and ids: "\<forall>x\<in>set (readGroupSetsOf cs). getId x = enc (getLocalId x)"
  shows "ran (readGroupSetNameMap d) = ran (readGroupSetIdMap d)
   \<and> (\<forall>name e. getReadGroupSetByName d name = Inr e \<longrightarrow>
        getLocalId e = name \<and> getReadGroupSet d (getId e) = Inr e)"
proof -
  have compat: "\<forall>x\<in>set (readGroupSetsOf cs). \<forall>y\<in>set (readGroupSetsOf cs).
       (getId x = getId y) = (getLocalId x = getLocalId y)"
  proof (intro ballI)
    fix x y
    assume "x \<in> set (readGroupSetsOf cs)" and "y \<in> set (readGroupSetsOf cs)"
    with ids have "getId x = enc (getLocalId x)" and "getId y = enc (getLocalId y)"
      by blast+
    with enc show "(getId x = getId y) = (getLocalId x = getLocalId y)"
      by (simp add: inj_eq)
  qed
  have agree: "ran (readGroupSetNameMap d) = ran (readGroupSetIdMap d)
   \<and> (\<forall>name e. getReadGroupSetByName d name = Inr e \<longrightarrow>
        getReadGroupSet d (getId e) = Inr e)"
    unfolding d_def by (rule maps_agree_when_ids_follow_names [OF compat])
  have name: "getLocalId e = name" if "getReadGroupSetByName d name = Inr e" for name e
  proof -
    from that have "dict_of getLocalId (readGroupSetsOf cs) name = Some e"
      by (simp add: by_name_by_id d_def readGroupSetNameMap_populate init_fields
          split: option.splits)
    then show ?thesis by (auto dest: dict_of_Some)
  qed
  from agree name show ?thesis by blast
qed

theorem name_map_agrees_with_id_map_witness:
  "getReadGroupSetByName
     (populate (AbstractDataset_init ''ds'')
        [AddReadGroupSet (mk_entity ''ds'' ''r1'' ''x''),
         AddReadGroupSet (mk_entity ''ds'' ''r0'' []),
         AddReadGroupSet (mk_entity ''ds'' ''r1'' ''y'')])
     ''r1'' = Inr (mk_entity ''ds'' ''r1'' ''y'')
   \<and> getReadGroupSet
     (populate (AbstractDataset_init ''ds'')
        [AddReadGroupSet (mk_entity ''ds'' ''r1'' ''x''),
         AddReadGroupSet (mk_entity ''ds'' ''r0'' []),
         AddReadGroupSet (mk_entity ''ds'' ''r1'' ''y'')])
     (getId (mk_entity ''ds'' ''r1'' ''y'')) = Inr (mk_entity ''ds'' ''r1'' ''y'')"
proof -
  let ?cs = "[AddReadGroupSet (mk_entity ''ds'' ''r1'' ''x''),
              AddReadGroupSet (mk_entity ''ds'' ''r0'' []),
              AddReadGroupSet (mk_entity ''ds'' ''r1'' ''y'')]"
  have enc: "inj (\<lambda>n. ''ds:'' @ n)"
    by (simp add: inj_def)
  have ids: "\<forall>x\<in>set (readGroupSetsOf ?cs). getId x = ''ds:'' @ getLocalId x"
    by (simp add: mk_entity_def)
  have byname: "getReadGroupSetByName (populate (AbstractDataset_init ''ds'') ?cs) ''r1'' =
      Inr (mk_entity ''ds'' ''r1'' ''y'')"
    by (simp add: by_name_by_id readGroupSetNameMap_populate init_fields dict_of_lookup
        mk_entity_def)
  from name_map_agrees_with_id_map [OF enc ids, where l = "''ds''"] byname
  show ?thesis by blast
qed

section \<open>Properties of the file-system loader\<close>

subsection \<open>C5: the metadata file beside the data directory\<close>

text \<open>
  C5 says that a metadata file that exists but lacks the key \<open>description\<close> makes the load
  fail with the missing-metadata error. The handler of \<^verbatim>\<open>_setMetadata\<close> catches \<^verbatim>\<open>KeyError\<close>
  only. A metadata file that holds the JSON array \<open>[1, 2]\<close> exists and has no key
  \<open>description\<close>; subscripting the list with a string raises \<^verbatim>\<open>TypeError\<close>, and the load
  fails with that error, not with \<^verbatim>\<open>MissingDatasetMetadataException\<close>.
\<close>

theorem sidecar_array_counterexample:
  "isfile (example_fs [(''data.json'', PyList [PyInt 1, PyInt 2])]) ''data.json''
   \<and> json_load (example_fs [(''data.json'', PyList [PyInt 1, PyInt 2])]) ''data.json'' =
       Inr (PyList [PyInt 1, PyInt 2])
   \<and> FileSystemDataset_init (example_fs [(''data.json'', PyList [PyInt 1, PyInt 2])])
        example_co ''ds'' ''data'' ''b'' = Inl TypeError"
  by (simp add: FileSystemDataset_init_def setMetadata_def example_fs_sel)

text \<open>
  C5 as amended: when \<^verbatim>\<open><dataDir>.json\<close> is not a file, the metadata step changes nothing,
  the load is the four scans on the fresh dataset, and a dataset it returns has the
  description \<^verbatim>\<open>None\<close>; when the file holds a JSON object without the key \<open>description\<close>,
  the load fails with \<^verbatim>\<open>MissingDatasetMetadataException\<close> carrying the path of the file and
  the message \<^verbatim>\<open>'description'\<close>, the missing key in quotes; when the file holds a JSON
  object with the key, the load is the four scans on the dataset with that value as its
  description, and a dataset it returns has that description. When the file holds a JSON
  value that is not an object the load fails with \<^verbatim>\<open>TypeError\<close>, and when reading or
  parsing the file raises, the load fails with that exception.
\<close>

theorem sidecar_metadata:
  fixes fs :: filesystem and co :: collaborators and l dataDir :: string and backend :: handle
  defines "path \<equiv> dataDir @ ''.json''"
  defines "load \<equiv> FileSystemDataset_init fs co l dataDir backend"
  shows
  "(\<not> isfile fs path \<longrightarrow>
      load = scanAll fs co backend dataDir (AbstractDataset_init l)
      \<and> (\<forall>d. load = Inr d \<longrightarrow> getDescription d = PyNone))
   \<and> (isfile fs path \<and> json_load fs path = Inr (PyDict kvs) \<and>
       map_of kvs ''description'' = None \<longrightarrow>
      load = Inl (MissingDatasetMetadataException path (CHR 0x27 # ''description'' @ [CHR 0x27])))
   \<and> (isfile fs path \<and> json_load fs path = Inr (PyDict kvs) \<and>
       map_of kvs ''description'' = Some v \<longrightarrow>
      load = scanAll fs co backend dataDir ((AbstractDataset_init l)\<lparr> description := v \<rparr>)
      \<and> (\<forall>d. load = Inr d \<longrightarrow> getDescription d = v))
   \<and> (isfile fs path \<and> json_load fs path = Inr m \<and> (\<forall>kvs. m \<noteq> PyDict kvs) \<longrightarrow>
      load = Inl TypeError)
   \<and> (isfile fs path \<and> json_load fs path = Inl err \<longrightarrow> load = Inl err)"
proof -
  have a: "load = scanAll fs co backend dataDir (AbstractDataset_init l)
      \<and> (\<forall>d. load = Inr d \<longrightarrow> getDescription d = PyNone)" if "\<not> isfile fs path"
  proof -
    from that have eq: "load = scanAll fs co backend dataDir (AbstractDataset_init l)"
      by (simp add: load_def path_def FileSystemDataset_init_def setMetadata_absent)
    moreover have "getDescription d = PyNone" if "load = Inr d" for d
      using that eq scanAll_keeps [of fs co backend dataDir "AbstractDataset_init l" d]
      by (simp add: getDescription_def init_fields)
    ultimately show ?thesis by blast
  qed
  have b: "load = Inl (MissingDatasetMetadataException path (CHR 0x27 # ''description'' @ [CHR 0x27]))"
    if "isfile fs path" "json_load fs path = Inr (PyDict kvs)" "map_of kvs ''description'' = None"
    using that
    by (simp add: load_def path_def FileSystemDataset_init_def setMetadata_missing_key
        str_KeyError_def)
  have c: "load = scanAll fs co backend dataDir ((AbstractDataset_init l)\<lparr> description := v \<rparr>)
      \<and> (\<forall>d. load = Inr d \<longrightarrow> getDescription d = v)"
    if "isfile fs path" "json_load fs path = Inr (PyDict kvs)" "map_of kvs ''description'' = Some v"
  proof -
    from that have eq:
      "load = scanAll fs co backend dataDir ((AbstractDataset_init l)\<lparr> description := v \<rparr>)"
      by (simp add: load_def path_def FileSystemDataset_init_def setMetadata_present)
    moreover have "getDescription d = v" if "load = Inr d" for d
      using that eq
        scanAll_keeps [of fs co backend dataDir "(AbstractDataset_init l)\<lparr> description := v \<rparr>" d]
      by (simp add: getDescription_def)
    ultimately show ?thesis by blast
  qed
  have d: "load = Inl TypeError"
    if "isfile fs path" "json_load fs path = Inr m" "\<forall>kvs. m \<noteq> PyDict kvs"
    using that
    by (cases m) (simp_all add: load_def path_def FileSystemDataset_init_def setMetadata_def)
  have e: "load = Inl err" if "isfile fs path" "json_load fs path = Inl err"
    using that by (simp add: load_def path_def FileSystemDataset_init_def setMetadata_def)
  from a b c d e show ?thesis by blast
qed

theorem sidecar_metadata_witness:
  "\<not> isfile (example_fs []) ''data.json''
   \<and> FileSystemDataset_init (example_fs []) example_co ''ds'' ''data'' ''b'' =
       Inr (populate (AbstractDataset_init ''ds'')
         [AddVariantSet (mk_entity ''ds'' ''vs1'' ''data/variants/vs1''),
          AddReadGroupSet (mk_entity ''ds'' ''rg1'' ''data/reads/rg1.bam'')])
   \<and> getDescription
        (populate (AbstractDataset_init ''ds'')
         [AddVariantSet (mk_entity ''ds'' ''vs1'' ''data/variants/vs1''),
          AddReadGroupSet (mk_entity ''ds'' ''rg1'' ''data/reads/rg1.bam'')]) = PyNone
   \<and> isfile (example_fs [(''data.json'', PyDict [(''name'', PyStr ''foo'')])]) ''data.json''
   \<and> FileSystemDataset_init (example_fs [(''data.json'', PyDict [(''name'', PyStr ''foo'')])])
        example_co ''ds'' ''data'' ''b'' =
       Inl (MissingDatasetMetadataException ''data.json'' (CHR 0x27 # ''description'' @ [CHR 0x27]))
   \<and> isfile (example_fs [(''data.json'', PyDict [(''description'', PyStr ''foo'')])])
        ''data.json''
   \<and> FileSystemDataset_init
        (example_fs [(''data.json'', PyDict [(''description'', PyStr ''foo'')])])
        example_co ''ds'' ''data'' ''b'' =
       Inr (populate ((AbstractDataset_init ''ds'')\<lparr> description := PyStr ''foo'' \<rparr>)
         [AddVariantSet (mk_entity ''ds'' ''vs1'' ''data/variants/vs1''),
          AddReadGroupSet (mk_entity ''ds'' ''rg1'' ''data/reads/rg1.bam'')])
   \<and> getDescription
        (populate ((AbstractDataset_init ''ds'')\<lparr> description := PyStr ''foo'' \<rparr>)
         [AddVariantSet (mk_entity ''ds'' ''vs1'' ''data/variants/vs1''),
          AddReadGroupSet (mk_entity ''ds'' ''rg1'' ''data/reads/rg1.bam'')]) = PyStr ''foo''
   \<and> FileSystemDataset_init (example_fs [(''data.json'', PyStr ''description'')])
        example_co ''ds'' ''data'' ''b'' = Inl TypeError
   \<and> FileSystemDataset_init (mk_fs [''data.json''] [] [] [])
        example_co ''ds'' ''data'' ''b'' = Inl (OSError ''data.json'')"
  using
    sidecar_metadata [where fs = "example_fs []" and co = example_co and l = "''ds''"
      and dataDir = "''data''" and backend = "''b''"]
    sidecar_metadata [where fs = "example_fs [(''data.json'', PyDict [(''name'', PyStr ''foo'')])]"
      and co = example_co and l = "''ds''" and dataDir = "''data''" and backend = "''b''"
      and kvs = "[(''name'', PyStr ''foo'')]"]
    sidecar_metadata
      [where fs = "example_fs [(''data.json'', PyDict [(''description'', PyStr ''foo'')])]"
      and co = example_co and l = "''ds''" and dataDir = "''data''" and backend = "''b''"
      and kvs = "[(''description'', PyStr ''foo'')]" and v = "PyStr ''foo''"]
    sidecar_metadata [where fs = "example_fs [(''data.json'', PyStr ''description'')]"
      and co = example_co and l = "''ds''" and dataDir = "''data''" and backend = "''b''"
      and m = "PyStr ''description''"]
    sidecar_metadata [where fs = "mk_fs [''data.json''] [] [] []"
      and co = example_co and l = "''ds''" and dataDir = "''data''" and backend = "''b''"
      and err = "OSError ''data.json''"]
  by (simp add: example_fs_sel mk_fs_sel example_scanAll init_fields)

subsection \<open>C6: the files under reads\<close>

text \<open>
  C6 says that a file name matching \<open>*.bam\<close> is added under its name with the extension
  stripped. The local id is the first component of \<^verbatim>\<open>os.path.splitext\<close>, which finds no
  extension in a name whose final dot has only dots before it: the file \<^verbatim>\<open>.bam\<close> matches
  the pattern and becomes a read-group set with the local id \<^verbatim>\<open>.bam\<close>, not the empty name.
\<close>

theorem bam_stem_counterexample:
  "fnmatch ''.bam'' ''*.bam''
   \<and> readGroupSetBody example_co ''b'' ''data/reads'' (AbstractDataset_init ''ds'') ''.bam'' =
       Inr (addReadGroupSet (AbstractDataset_init ''ds'')
              \<lparr> getId = ''ds:.bam'', getLocalId = ''.bam'', content = ''data/reads/.bam'' \<rparr>)"
  by (simp add: readGroupSetBody_def fnmatch_def normcase_def splitext_def rfind_def Let_def
      example_co_sel from_file_def mk_entity_def path_join_def init_fields)

text \<open>
  C6 as amended (on POSIX, where \<^verbatim>\<open>fnmatch\<close> compares characters as they are): a name
  listed under \<open>reads\<close> matches exactly when it ends with \<open>.bam\<close>; a name that does not match
  is skipped and the dataset is unchanged; for a name that matches the constructor is
  called with the local id \<^verbatim>\<open>splitext(name)[0]\<close> and the joined path, and its result is
  added (or its exception propagates). That local id is the name without \<open>.bam\<close> when
  some character other than a dot precedes the final \<open>.bam\<close>, and the whole name when only
  dots (or nothing) precede it. The loop over a listing constructs the read-group sets
  of the matching names, in listing order.
\<close>

theorem bam_files_become_read_group_sets:
  "fnmatch x ''*.bam'' = (\<exists>s. x = s @ ''.bam'')
   \<and> (\<not> fnmatch x ''*.bam'' \<longrightarrow> readGroupSetBody co backend dir d x = Inr d)
   \<and> (fnmatch x ''*.bam'' \<longrightarrow>
        readGroupSetBody co backend dir d x =
          (case HtslibReadGroupSet co (localId d) (fst (splitext x)) (path_join dir x) backend of
             Inl e \<Rightarrow> Inl e
           | Inr readGroupSet \<Rightarrow> Inr (addReadGroupSet d readGroupSet)))
   \<and> (CHR ''/'' \<notin> set s \<and> (\<exists>c\<in>set s. c \<noteq> CHR ''.'') \<longrightarrow> fst (splitext (s @ ''.bam'')) = s)
   \<and> ((\<forall>c\<in>set s. c = CHR ''.'') \<longrightarrow> fst (splitext (s @ ''.bam'')) = s @ ''.bam'')
   \<and> for_each (readGroupSetBody co backend dir) d xs =
        (case collect
                (map (\<lambda>x. HtslibReadGroupSet co (localId d) (fst (splitext x)) (path_join dir x)
                             backend)
                   (filter (\<lambda>x. fnmatch x ''*.bam'') xs)) of
           Inl e \<Rightarrow> Inl e
         | Inr rs \<Rightarrow> Inr (populate d (map AddReadGroupSet rs)))"
proof -
  have dots: "fst (splitext (s @ ''.bam'')) = s @ ''.bam''" if "\<forall>c\<in>set s. c = CHR ''.''"
  proof -
    from that have "CHR ''/'' \<notin> set s" by auto
    with that show ?thesis by (simp add: splitext_bam)
  qed
  have stem: "fst (splitext (s @ ''.bam'')) = s"
    if "CHR ''/'' \<notin> set s" "\<exists>c\<in>set s. c \<noteq> CHR ''.''"
    using that by (simp add: splitext_bam)
  show ?thesis
    using dots stem
    by (simp add: fnmatch_bam [symmetric] readGroupSetBody_def Let_def
        readGroupSetBody_collect [OF refl])
qed

theorem bam_files_become_read_group_sets_witness:
  "fnmatch ''rg1.bam'' ''*.bam''
   \<and> readGroupSetBody example_co ''b'' ''data/reads'' (AbstractDataset_init ''ds'') ''rg1.bam'' =
       Inr (addReadGroupSet (AbstractDataset_init ''ds'')
              (mk_entity ''ds'' ''rg1'' ''data/reads/rg1.bam''))
   \<and> \<not> fnmatch ''notes.txt'' ''*.bam''
   \<and> readGroupSetBody example_co ''b'' ''data/reads'' (AbstractDataset_init ''ds'') ''notes.txt'' =
       Inr (AbstractDataset_init ''ds'')
   \<and> fst (splitext (''..'' @ ''.bam'')) = ''...bam''"
  using
    bam_files_become_read_group_sets [where x = "''rg1.bam''" and s = "''rg1''"
      and co = example_co and backend = "''b''" and dir = "''data/reads''"
      and d = "AbstractDataset_init ''ds''" and xs = "[]"]
    bam_files_become_read_group_sets [where x = "''notes.txt''" and s = "''..''"
      and co = example_co and backend = "''b''" and dir = "''data/reads''"
      and d = "AbstractDataset_init ''ds''" and xs = "[]"]
  by (simp add: fnmatch_rg1 fnmatch_notes example_co_sel from_file_def init_fields
      path_join_def)

subsection \<open>C9: a failing scan step ends the load\<close>

text \<open>
  C9: a directory that cannot be listed makes its scan fail with the exception of
  \<^verbatim>\<open>os.listdir\<close>; an exception of a constructor, raised at an entry that qualifies after
  the entries before it were processed, is the result of the scan, whatever entries follow;
  and the load fails with the exception of the first step that fails, whatever the later
  steps would do. No exception is caught: the only handler of the module is the one for
  \<^verbatim>\<open>KeyError\<close> in \<^verbatim>\<open>_setMetadata\<close>.
\<close>

theorem scan_failure_aborts_load:
  fixes fs :: filesystem and co :: collaborators and l dataDir :: string and backend :: handle
  defines "load \<equiv> FileSystemDataset_init fs co l dataDir backend"
  defines "vDir \<equiv> path_join dataDir ''variants''"
  defines "rDir \<equiv> path_join dataDir ''reads''"
  defines "qDir \<equiv> path_join dataDir ''rnaQuant''"
  defines "aDir \<equiv> path_join dataDir ''sequenceAnnotations''"
  shows
  "(listdir fs vDir = Inl e \<longrightarrow> scanVariants fs co backend dataDir d = Inl e)
   \<and> (listdir fs rDir = Inl e \<longrightarrow> scanReads fs co backend dataDir d = Inl e)
   \<and> (listdir fs qDir = Inl e \<longrightarrow> scanRnaQuant fs co dataDir d = Inl e)
   \<and> (listdir fs aDir = Inl e \<longrightarrow> scanSeqAnnotations fs co dataDir d = Inl e)
   \<and> (listdir fs vDir = Inr (pre @ x # post) \<and>
       for_each (variantSetBody fs co backend vDir) d pre = Inr d' \<and>
       isdir fs (path_join vDir x) \<and>
       HtslibVariantSet co (localId d') x (path_join vDir x) backend = Inl e \<longrightarrow>
       scanVariants fs co backend dataDir d = Inl e)
   \<and> (listdir fs rDir = Inr (pre @ x # post) \<and>
       for_each (readGroupSetBody co backend rDir) d pre = Inr d' \<and>
       fnmatch x ''*.bam'' \<and>
       HtslibReadGroupSet co (localId d') (fst (splitext x)) (path_join rDir x) backend = Inl e
       \<longrightarrow> scanReads fs co backend dataDir d = Inl e)
   \<and> (listdir fs qDir = Inr (pre @ x # post) \<and>
       for_each (rnaQuantBody fs co qDir) d pre = Inr d' \<and>
       isdir fs (path_join qDir x) \<and>
       RNASeqResult co (localId d') x (path_join qDir x) = Inl e \<longrightarrow>
       scanRnaQuant fs co dataDir d = Inl e)
   \<and> (listdir fs aDir = Inr (pre @ x # post) \<and>
       for_each (seqAnnotationBody co aDir) d pre = Inr d' \<and>
       SequenceAnnotation co (localId d') x (path_join aDir x) = Inl e \<longrightarrow>
       scanSeqAnnotations fs co dataDir d = Inl e)
   \<and> (setMetadata fs dataDir (AbstractDataset_init l) = Inl e \<longrightarrow> load = Inl e)
   \<and> (setMetadata fs dataDir (AbstractDataset_init l) = Inr d1 \<and>
       scanVariants fs co backend dataDir d1 = Inl e \<longrightarrow> load = Inl e)
   \<and> (setMetadata fs dataDir (AbstractDataset_init l) = Inr d1 \<and>
       scanVariants fs co backend dataDir d1 = Inr d2 \<and>
       scanReads fs co backend dataDir d2 = Inl e \<longrightarrow> load = Inl e)
   \<and> (setMetadata fs dataDir (AbstractDataset_init l) = Inr d1 \<and>
       scanVariants fs co backend dataDir d1 = Inr d2 \<and>
       scanReads fs co backend dataDir d2 = Inr d3 \<and>
       scanRnaQuant fs co dataDir d3 = Inl e \<longrightarrow> load = Inl e)
   \<and> (setMetadata fs dataDir (AbstractDataset_init l) = Inr d1 \<and>
       scanVariants fs co backend dataDir d1 = Inr d2 \<and>
       scanReads fs co backend dataDir d2 = Inr d3 \<and>
       scanRnaQuant fs co dataDir d3 = Inr d4 \<and>
       scanSeqAnnotations fs co dataDir d4 = Inl e \<longrightarrow> load = Inl e)"
proof -
  have m1: "listdir fs vDir = Inl e \<longrightarrow> scanVariants fs co backend dataDir d = Inl e"
    by (simp add: scanVariants_def Let_def vDir_def scan_missing)
  have m2: "listdir fs rDir = Inl e \<longrightarrow> scanReads fs co backend dataDir d = Inl e"
    by (simp add: scanReads_def Let_def rDir_def scan_missing)
  have m3: "listdir fs qDir = Inl e \<longrightarrow> scanRnaQuant fs co dataDir d = Inl e"
    by (simp add: scanRnaQuant_def Let_def qDir_def scan_missing)
  have m4: "listdir fs aDir = Inl e \<longrightarrow> scanSeqAnnotations fs co dataDir d = Inl e"
    by (simp add: scanSeqAnnotations_def Let_def aDir_def scan_missing)
  have f1: "listdir fs vDir = Inr (pre @ x # post) \<and>
       for_each (variantSetBody fs co backend vDir) d pre = Inr d' \<and>
       isdir fs (path_join vDir x) \<and>
       HtslibVariantSet co (localId d') x (path_join vDir x) backend = Inl e \<longrightarrow>
       scanVariants fs co backend dataDir d = Inl e"
  proof (intro impI, elim conjE)
    assume "listdir fs vDir = Inr (pre @ x # post)"
      and "for_each (variantSetBody fs co backend vDir) d pre = Inr d'"
      and "isdir fs (path_join vDir x)"
      and "HtslibVariantSet co (localId d') x (path_join vDir x) backend = Inl e"
    moreover from this have "variantSetBody fs co backend vDir d' x = Inl e"
      by (simp add: variantSetBody_def Let_def)
    ultimately have "scan fs vDir (variantSetBody fs co backend vDir) d = Inl e"
      by (intro scan_abort)
    then show "scanVariants fs co backend dataDir d = Inl e"
      by (simp add: scanVariants_def Let_def vDir_def)
  qed
  have f2: "listdir fs rDir = Inr (pre @ x # post) \<and>
       for_each (readGroupSetBody co backend rDir) d pre = Inr d' \<and>
       fnmatch x ''*.bam'' \<and>
       HtslibReadGroupSet co (localId d') (fst (splitext x)) (path_join rDir x) backend = Inl e
       \<longrightarrow> scanReads fs co backend dataDir d = Inl e"
  proof (intro impI, elim conjE)
    assume "listdir fs rDir = Inr (pre @ x # post)"
      and "for_each (readGroupSetBody co backend rDir) d pre = Inr d'"
      and "fnmatch x ''*.bam''"
      and "HtslibReadGroupSet co (localId d') (fst (splitext x)) (path_join rDir x) backend
             = Inl e"
    moreover from this have "readGroupSetBody co backend rDir d' x = Inl e"
      by (simp add: readGroupSetBody_def Let_def)
    ultimately have "scan fs rDir (readGroupSetBody co backend rDir) d = Inl e"
      by (intro scan_abort)
    then show "scanReads fs co backend dataDir d = Inl e"
      by (simp add: scanReads_def Let_def rDir_def)
  qed
  have f3: "listdir fs qDir = Inr (pre @ x # post) \<and>
       for_each (rnaQuantBody fs co qDir) d pre = Inr d' \<and>
       isdir fs (path_join qDir x) \<and>
       RNASeqResult co (localId d') x (path_join qDir x) = Inl e \<longrightarrow>
       scanRnaQuant fs co dataDir d = Inl e"
  proof (intro impI, elim conjE)
    assume "listdir fs qDir = Inr (pre @ x # post)"
      and "for_each (rnaQuantBody fs co qDir) d pre = Inr d'"
      and "isdir fs (path_join qDir x)"
      and "RNASeqResult co (localId d') x (path_join qDir x) = Inl e"
    moreover from this have "rnaQuantBody fs co qDir d' x = Inl e"
      by (simp add: rnaQuantBody_def Let_def)
    ultimately have "scan fs qDir (rnaQuantBody fs co qDir) d = Inl e"
      by (intro scan_abort)
    then show "scanRnaQuant fs co dataDir d = Inl e"
      by (simp add: scanRnaQuant_def Let_def qDir_def)
  qed
  have f4: "listdir fs aDir = Inr (pre @ x # post) \<and>
       for_each (seqAnnotationBody co aDir) d pre = Inr d' \<and>
       SequenceAnnotation co (localId d') x (path_join aDir x) = Inl e \<longrightarrow>
       scanSeqAnnotations fs co dataDir d = Inl e"
  proof (intro impI, elim conjE)
    assume "listdir fs aDir = Inr (pre @ x # post)"
      and "for_each (seqAnnotationBody co aDir) d pre = Inr d'"
      and "SequenceAnnotation co (localId d') x (path_join aDir x) = Inl e"
    moreover from this have "seqAnnotationBody co aDir d' x = Inl e"
      by (simp add: seqAnnotationBody_def Let_def)
    ultimately have "scan fs aDir (seqAnnotationBody co aDir) d = Inl e"
      by (intro scan_abort)
    then show "scanSeqAnnotations fs co dataDir d = Inl e"
      by (simp add: scanSeqAnnotations_def Let_def aDir_def)
  qed
  have p0: "setMetadata fs dataDir (AbstractDataset_init l) = Inl e \<longrightarrow> load = Inl e"
    by (simp add: load_def FileSystemDataset_init_def)
  have p1: "setMetadata fs dataDir (AbstractDataset_init l) = Inr d1 \<and>
       scanVariants fs co backend dataDir d1 = Inl e \<longrightarrow> load = Inl e"
    by (simp add: load_def FileSystemDataset_init_def scanAll_def)
  have p2: "setMetadata fs dataDir (AbstractDataset_init l) = Inr d1 \<and>
       scanVariants fs co backend dataDir d1 = Inr d2 \<and>
       scanReads fs co backend dataDir d2 = Inl e \<longrightarrow> load = Inl e"
    by (simp add: load_def FileSystemDataset_init_def scanAll_def)
  have p3: "setMetadata fs dataDir (AbstractDataset_init l) = Inr d1 \<and>
       scanVariants fs co backend dataDir d1 = Inr d2 \<and>
       scanReads fs co backend dataDir d2 = Inr d3 \<and>
       scanRnaQuant fs co dataDir d3 = Inl e \<longrightarrow> load = Inl e"
    by (simp add: load_def FileSystemDataset_init_def scanAll_def)
  have p4: "setMetadata fs dataDir (AbstractDataset_init l) = Inr d1 \<and>
       scanVariants fs co backend dataDir d1 = Inr d2 \<and>
       scanReads fs co backend dataDir d2 = Inr d3 \<and>
       scanRnaQuant fs co dataDir d3 = Inr d4 \<and>
       scanSeqAnnotations fs co dataDir d4 = Inl e \<longrightarrow> load = Inl e"
    by (simp add: load_def FileSystemDataset_init_def scanAll_def)
  show ?thesis
    by (intro conjI) (rule m1 m2 m3 m4 f1 f2 f3 f4 p0 p1 p2 p3 p4)+
qed

theorem scan_failure_aborts_load_witness:
  "FileSystemDataset_init
     (mk_fs [] [''data/variants/vs1'']
        [(''data/variants'', [''vs1'']), (''data/reads'', [''rg1.bam'', ''bad.bam'', ''z.bam'']),
         (''data/rnaQuant'', []), (''data/sequenceAnnotations'', [])] [])
     example_co ''ds'' ''data'' ''b'' = Inl (OtherException ''data/reads/bad.bam'')
   \<and> FileSystemDataset_init
     (mk_fs [] [''data/variants/vs1'']
        [(''data/variants'', [''vs1'']), (''data/reads'', [''rg1.bam'']),
         (''data/sequenceAnnotations'', [])] [])
     example_co ''ds'' ''data'' ''b'' = Inl (OSError ''data/rnaQuant'')"
proof -
  let ?A = "mk_fs [] [''data/variants/vs1'']
        [(''data/variants'', [''vs1'']), (''data/reads'', [''rg1.bam'', ''bad.bam'', ''z.bam'']),
         (''data/rnaQuant'', []), (''data/sequenceAnnotations'', [])] []"
  let ?B = "mk_fs [] [''data/variants/vs1'']
        [(''data/variants'', [''vs1'']), (''data/reads'', [''rg1.bam'']),
         (''data/sequenceAnnotations'', [])] []"
  let ?d0 = "AbstractDataset_init ''ds''"
  let ?d2 = "addVariantSet ?d0 (mk_entity ''ds'' ''vs1'' ''data/variants/vs1'')"
  let ?d3 = "addReadGroupSet ?d2 (mk_entity ''ds'' ''rg1'' ''data/reads/rg1.bam'')"
  have metaA: "setMetadata ?A ''data'' ?d0 = Inr ?d0"
    by (simp add: setMetadata_def mk_fs_sel)
  have metaB: "setMetadata ?B ''data'' ?d0 = Inr ?d0"
    by (simp add: setMetadata_def mk_fs_sel)
  have varsA: "scanVariants ?A example_co ''b'' ''data'' ?d0 = Inr ?d2"
    by (simp add: scanVariants_def scan_def Let_def path_join_def mk_fs_sel variantSetBody_def
        example_co_sel from_file_def init_fields)
  have varsB: "scanVariants ?B example_co ''b'' ''data'' ?d0 = Inr ?d2"
    by (simp add: scanVariants_def scan_def Let_def path_join_def mk_fs_sel variantSetBody_def
        example_co_sel from_file_def init_fields)
  have lsA: "listdir ?A (path_join ''data'' ''reads'') = Inr ([''rg1.bam''] @ ''bad.bam'' # [''z.bam''])"
    by (simp add: path_join_def mk_fs_sel)
  have preA: "for_each (readGroupSetBody example_co ''b'' (path_join ''data'' ''reads'')) ?d2
      [''rg1.bam''] = Inr ?d3"
    by (simp add: readGroupSetBody_def Let_def fnmatch_rg1 splitext_rg1 path_join_def
        example_co_sel from_file_def add_selectors init_fields)
  have bad: "fnmatch ''bad.bam'' ''*.bam''"
    by (simp add: fnmatch_def normcase_def)
  have ctor: "HtslibReadGroupSet example_co (localId ?d3) (fst (splitext ''bad.bam''))
      (path_join (path_join ''data'' ''reads'') ''bad.bam'') ''b'' =
      Inl (OtherException ''data/reads/bad.bam'')"
    by (simp add: example_co_sel from_file_def splitext_def rfind_def Let_def path_join_def)
  note A = scan_failure_aborts_load [where fs = ?A and co = example_co and l = "''ds''"
      and dataDir = "''data''" and backend = "''b''" and d = ?d2 and d' = ?d3
      and pre = "[''rg1.bam'']" and x = "''bad.bam''" and post = "[''z.bam'']"
      and e = "OtherException ''data/reads/bad.bam''" and ?d1.0 = ?d0 and ?d2.0 = ?d2]
  have readsA: "scanReads ?A example_co ''b'' ''data'' ?d2 =
      Inl (OtherException ''data/reads/bad.bam'')"
    by (rule A [THEN conjunct2, THEN conjunct2, THEN conjunct2, THEN conjunct2,
          THEN conjunct2, THEN conjunct1, THEN mp])
       (intro conjI lsA preA bad ctor)
  have a: "FileSystemDataset_init ?A example_co ''ds'' ''data'' ''b'' =
      Inl (OtherException ''data/reads/bad.bam'')"
    by (rule A [THEN conjunct2, THEN conjunct2, THEN conjunct2, THEN conjunct2,
          THEN conjunct2, THEN conjunct2, THEN conjunct2, THEN conjunct2,
          THEN conjunct2, THEN conjunct2, THEN conjunct1, THEN mp])
       (intro conjI metaA varsA readsA)
  have readsB: "scanReads ?B example_co ''b'' ''data'' ?d2 = Inr ?d3"
    by (simp add: scanReads_def scan_def readGroupSetBody_def Let_def fnmatch_rg1 splitext_rg1
        path_join_def mk_fs_sel example_co_sel from_file_def add_selectors init_fields)
  have lsB: "listdir ?B (path_join ''data'' ''rnaQuant'') = Inl (OSError ''data/rnaQuant'')"
    by (simp add: path_join_def mk_fs_sel)
  note B = scan_failure_aborts_load [where fs = ?B and co = example_co and l = "''ds''"
      and dataDir = "''data''" and backend = "''b''" and d = ?d3
      and e = "OSError ''data/rnaQuant''" and ?d1.0 = ?d0 and ?d2.0 = ?d2 and ?d3.0 = ?d3]
  have rnaB: "scanRnaQuant ?B example_co ''data'' ?d3 = Inl (OSError ''data/rnaQuant'')"
    by (rule B [THEN conjunct2, THEN conjunct2, THEN conjunct1, THEN mp]) (rule lsB)
  have b: "FileSystemDataset_init ?B example_co ''ds'' ''data'' ''b'' =
      Inl (OSError ''data/rnaQuant'')"
    by (rule B [THEN conjunct2, THEN conjunct2, THEN conjunct2, THEN conjunct2,
          THEN conjunct2, THEN conjunct2, THEN conjunct2, THEN conjunct2,
          THEN conjunct2, THEN conjunct2, THEN conjunct2, THEN conjunct1, THEN mp])
       (intro conjI metaB varsB readsB rnaB)
  from a b show ?thesis by (rule conjI)
qed

subsection \<open>C10: what each scan takes from its listing\<close>

text \<open>
  C10: under \<open>variants\<close> and \<open>rnaQuant\<close> an entry that is not a directory leaves the dataset
  as it is and raises nothing, so the loops depend on the directories of the listing only;
  under \<open>sequenceAnnotations\<close> the constructor is called for every entry, with the entry's
  name as local id, and each result is added: a scan that returns has added as many
  sequence annotations as the listing has entries.
\<close>

theorem only_directories_but_every_annotation:
  fixes fs :: filesystem and co :: collaborators and dataDir :: string
  defines "annDir \<equiv> path_join dataDir ''sequenceAnnotations''"
  shows
  "(\<not> isdir fs (path_join dir x) \<longrightarrow> variantSetBody fs co backend dir d x = Inr d)
   \<and> (\<not> isdir fs (path_join dir x) \<longrightarrow> rnaQuantBody fs co dir d x = Inr d)
   \<and> for_each (variantSetBody fs co backend dir) d xs =
       for_each (variantSetBody fs co backend dir) d (filter (\<lambda>x. isdir fs (path_join dir x)) xs)
   \<and> for_each (rnaQuantBody fs co dir) d xs =
       for_each (rnaQuantBody fs co dir) d (filter (\<lambda>x. isdir fs (path_join dir x)) xs)
   \<and> seqAnnotationBody co dir d x =
       (case SequenceAnnotation co (localId d) x (path_join dir x) of
          Inl e \<Rightarrow> Inl e
        | Inr annotation \<Rightarrow> Inr (addSequenceAnnotation d annotation))
   \<and> scanSeqAnnotations fs co dataDir d =
       (case listdir fs annDir of
          Inl e \<Rightarrow> Inl e
        | Inr entries \<Rightarrow>
            (case collect (map (\<lambda>x. SequenceAnnotation co (localId d) x (path_join annDir x))
                             entries) of
               Inl e \<Rightarrow> Inl e
             | Inr as \<Rightarrow> Inr (populate d (map AddSequenceAnnotation as))))
   \<and> (\<forall>entries d'. listdir fs annDir = Inr entries \<and> scanSeqAnnotations fs co dataDir d = Inr d'
        \<longrightarrow> length (sequenceAnnotationIds d') =
            length (sequenceAnnotationIds d) + length entries)"
proof -
  have sc: "scanSeqAnnotations fs co dataDir d =
       (case listdir fs annDir of
          Inl e \<Rightarrow> Inl e
        | Inr entries \<Rightarrow>
            (case collect (map (\<lambda>x. SequenceAnnotation co (localId d) x (path_join annDir x))
                             entries) of
               Inl e \<Rightarrow> Inl e
             | Inr as \<Rightarrow> Inr (populate d (map AddSequenceAnnotation as))))"
    by (simp add: scanSeqAnnotations_def scan_def Let_def annDir_def
        seqAnnotationBody_collect [OF refl] split: sum.splits)
  have len: "length (sequenceAnnotationIds d') = length (sequenceAnnotationIds d) + length entries"
    if "listdir fs annDir = Inr entries" "scanSeqAnnotations fs co dataDir d = Inr d'"
    for entries d'
  proof -
    from that sc obtain as where
      c: "collect (map (\<lambda>x. SequenceAnnotation co (localId d) x (path_join annDir x)) entries)
            = Inr as"
      and d': "d' = populate d (map AddSequenceAnnotation as)"
      by (auto split: sum.splits)
    have "sequenceAnnotationsOf (map AddSequenceAnnotation as) = as" by (induction as) simp_all
    moreover from c have "length as = length entries" by (auto dest: collect_Inr_length)
    ultimately show ?thesis by (simp add: d' sequenceAnnotationIds_populate)
  qed
  have c1: "\<not> isdir fs (path_join dir x) \<longrightarrow> variantSetBody fs co backend dir d x = Inr d"
    by (simp add: variantSetBody_def Let_def)
  have c2: "\<not> isdir fs (path_join dir x) \<longrightarrow> rnaQuantBody fs co dir d x = Inr d"
    by (simp add: rnaQuantBody_def Let_def)
  have c3: "for_each (variantSetBody fs co backend dir) d xs =
       for_each (variantSetBody fs co backend dir) d (filter (\<lambda>x. isdir fs (path_join dir x)) xs)"
    by (simp add: variantSetBody_collect [OF refl])
  have c4: "for_each (rnaQuantBody fs co dir) d xs =
       for_each (rnaQuantBody fs co dir) d (filter (\<lambda>x. isdir fs (path_join dir x)) xs)"
    by (simp add: rnaQuantBody_collect [OF refl])
  have c5: "seqAnnotationBody co dir d x =
       (case SequenceAnnotation co (localId d) x (path_join dir x) of
          Inl e \<Rightarrow> Inl e
        | Inr annotation \<Rightarrow> Inr (addSequenceAnnotation d annotation))"
    by (simp add: seqAnnotationBody_def Let_def)
  have c7: "\<forall>entries d'. listdir fs annDir = Inr entries \<and>
        scanSeqAnnotations fs co dataDir d = Inr d'
        \<longrightarrow> length (sequenceAnnotationIds d') =
            length (sequenceAnnotationIds d) + length entries"
    using len by blast
  show ?thesis
    by (intro conjI) (rule c1 c2 c3 c4 c5 sc c7)+
qed

theorem only_directories_but_every_annotation_witness:
  "\<not> isdir (mk_fs [''d/variants/README'', ''d/sequenceAnnotations/a.gff'']
              [''d/variants/vs1'', ''d/sequenceAnnotations/sub'']
              [(''d/sequenceAnnotations'', [''a.gff'', ''sub''])] [])
        (path_join ''d/variants'' ''README'')
   \<and> variantSetBody
        (mk_fs [''d/variants/README'', ''d/sequenceAnnotations/a.gff'']
              [''d/variants/vs1'', ''d/sequenceAnnotations/sub'']
              [(''d/sequenceAnnotations'', [''a.gff'', ''sub''])] [])
        example_co ''b'' ''d/variants'' (AbstractDataset_init ''ds'') ''README'' =
       Inr (AbstractDataset_init ''ds'')
   \<and> scanSeqAnnotations
        (mk_fs [''d/variants/README'', ''d/sequenceAnnotations/a.gff'']
              [''d/variants/vs1'', ''d/sequenceAnnotations/sub'']
              [(''d/sequenceAnnotations'', [''a.gff'', ''sub''])] [])
        example_co ''d'' (AbstractDataset_init ''ds'') =
       Inr (populate (AbstractDataset_init ''ds'')
              [AddSequenceAnnotation (mk_entity ''ds'' ''a.gff'' ''d/sequenceAnnotations/a.gff''),
               AddSequenceAnnotation (mk_entity ''ds'' ''sub'' ''d/sequenceAnnotations/sub'')])"
  using only_directories_but_every_annotation
    [where fs = "mk_fs [''d/variants/README'', ''d/sequenceAnnotations/a.gff'']
              [''d/variants/vs1'', ''d/sequenceAnnotations/sub'']
              [(''d/sequenceAnnotations'', [''a.gff'', ''sub''])] []"
      and co = example_co and backend = "''b''" and dir = "''d/variants''"
      and d = "AbstractDataset_init ''ds''" and x = "''README''" and dataDir = "''d''"
      and xs = "[]"]
  by (simp add: mk_fs_sel path_join_def example_co_sel from_file_def init_fields)

section \<open>Properties of the simulated dataset\<close>

subsection \<open>C7: what the generator constructs\<close>



end
